theory Spec2Isabelle
  imports Main "HOL-Library.Sublist"
begin

section \<open>The waitlist mailer: data model\<close>

text \<open>
  The program is one Azure Function, \<^verbatim>\<open>src/functions/ProcessWaitlistEntries.js\<close>.
  It reads the rows of a Google sheet, sends a welcome mail through Microsoft Graph to
  every row that has not been mailed yet, and writes a marker back into the sheet.

  A sheet row is read and written by column header (\<^verbatim>\<open>row.get('Email')\<close>,
  \<^verbatim>\<open>row.set('EmailSent', 'true')\<close>), so a row is a map from header to cell text.
  A header without a cell is \<^verbatim>\<open>undefined\<close> in the source and \<open>None\<close> here.
  JavaScript strings are modelled as \<open>string\<close>.
\<close>

type_synonym row = "string \<rightharpoonup> string"

definition get :: "row \<Rightarrow> string \<Rightarrow> string option" where
  "get r k = r k"

definition set_cell :: "row \<Rightarrow> string \<Rightarrow> string \<Rightarrow> row" where
  "set_cell r k v = r(k \<mapsto> v)"

text \<open>The objects pushed onto \<^verbatim>\<open>newUsers\<close>: \<^verbatim>\<open>{ email, rowIndex }\<close>.\<close>

record user =
  email :: string
  rowIndex :: nat

subsection \<open>JavaScript values\<close>

text \<open>
  A value that is a string or \<^verbatim>\<open>undefined\<close> is truthy exactly when it is a
  non-empty string.
\<close>

definition truthy :: "string option \<Rightarrow> bool" where
  "truthy v = (case v of None \<Rightarrow> False | Some s \<Rightarrow> s \<noteq> [])"

text \<open>
  \<^verbatim>\<open>String.prototype.toLowerCase\<close>, on the letters A to Z. Characters outside
  ASCII are left alone here; the source compares the result with \<^verbatim>\<open>'true'\<close> only,
  and no character outside ASCII has one of t, r, u, e as its lower case.
\<close>

definition lower_char :: "char \<Rightarrow> char" where
  "lower_char c =
     (case map_of (zip ''ABCDEFGHIJKLMNOPQRSTUVWXYZ'' ''abcdefghijklmnopqrstuvwxyz'') c of
        None \<Rightarrow> c
      | Some d \<Rightarrow> d)"

definition toLowerCase :: "string \<Rightarrow> string" where
  "toLowerCase s = map lower_char s"

text \<open>Template literals print an array length in decimal.\<close>

definition digit_char :: "nat \<Rightarrow> char" where
  "digit_char d = ''0123456789'' ! d"

fun decimal :: "nat \<Rightarrow> string" where
  "decimal n = (if n < 10 then [digit_char n] else decimal (n div 10) @ [digit_char (n mod 10)])"

declare decimal.simps [simp del]

subsection \<open>The Waitlist Reader's loop\<close>

text \<open>
  The condition of line 66:
  \<^verbatim>\<open>email && (!emailSent || emailSent.toLowerCase() !== 'true')\<close>.
\<close>

definition is_new :: "row \<Rightarrow> bool" where
  "is_new r =
     (let email = get r ''Email''; emailSent = get r ''EmailSent''
      in truthy email \<and>
         (if \<not> truthy emailSent then True else toLowerCase (the emailSent) \<noteq> ''true''))"

text \<open>
  The loop of lines 61 to 72, \<^verbatim>\<open>for (let i = 0; i < rows.length; i++)\<close>, with the
  array \<^verbatim>\<open>newUsers\<close> as an accumulator that \<^verbatim>\<open>push\<close> extends at its end.
\<close>

function scan_rows :: "row list \<Rightarrow> nat \<Rightarrow> user list \<Rightarrow> user list" where
  "scan_rows rows i newUsers =
     (if i < length rows then
        (let r = rows ! i
         in if is_new r
            then scan_rows rows (Suc i) (newUsers @ [\<lparr>email = the (get r ''Email''), rowIndex = i\<rparr>])
            else scan_rows rows (Suc i) newUsers)
      else newUsers)"
  by pat_completeness auto
termination
  by (relation "measure (\<lambda>(rows, i, newUsers). length rows - i)") auto

declare scan_rows.simps [simp del]

definition eligible_rows :: "row list \<Rightarrow> user list" where
  "eligible_rows rows = scan_rows rows 0 []"

section \<open>Effects: the remote services and the invocation's world\<close>

text \<open>
  The function talks to two remote services and to its host's log. What an observer
  can see of one invocation is collected in a \<open>world\<close>: the rows of the first sheet
  of the spreadsheet, the effects performed so far in order, and the number of remote
  requests issued so far. A delivered mail appears as \<open>SendMail\<close> with its
  recipient (the subject, the sender and the HTML body are the same for every mail
  and are left out); a row written back appears as \<open>SaveRow\<close> with its position.
\<close>

datatype event = SendMail string | SaveRow nat | Log string | LogError string

record world =
  sheet :: "row list"
  trace :: "event list"
  requests :: nat

text \<open>
  What the program does not control: the variables of \<^verbatim>\<open>process.env\<close>, and whether
  a remote request is answered or rejected. \<open>remote_error env n = Some m\<close> says that
  request number \<open>n\<close> of the invocation (counted from zero) rejects with an error of
  message \<open>m\<close>; this covers every pattern of failure of the two services. The sheet
  is written by this program only: edits made by others while an invocation runs are
  outside the model. \<open>credential_error env p\<close> is the message of the error that the
  Azure identity library throws when its constructor is given no value for its parameter
  \<open>p\<close>; the wording belongs to the library, not to this program.
\<close>

record env =
  process_env :: "string \<rightharpoonup> string"
  remote_error :: "nat \<Rightarrow> string option"
  credential_error :: "string \<Rightarrow> string"

text \<open>
  A thrown value. \<open>TypeError\<close> is raised by the JavaScript engine itself,
  \<open>ApiError\<close> by a client library, for a rejected request or for a constructor
  argument it refuses. The handler reads
  \<^verbatim>\<open>error.message\<close> only.
\<close>

datatype js_error = TypeError string | ApiError string

fun message :: "js_error \<Rightarrow> string" where
  "message (TypeError m) = m"
| "message (ApiError m) = m"

text \<open>
  The engine's message for a call of method \<open>p\<close> on \<^verbatim>\<open>undefined\<close> (the wording
  of V8, the engine of Node.js). It names the property, never the expression that was
  undefined.
\<close>

definition undefined_read :: "string \<Rightarrow> js_error" where
  "undefined_read p = TypeError (''Cannot read properties of undefined (reading '' @ [CHR 0x27] @ p @ [CHR 0x27] @ '')'')"

text \<open>
  An \<^verbatim>\<open>async\<close> computation: it runs in a world and either returns a value or throws,
  leaving a new world. \<open>await m f\<close> is \<^verbatim>\<open>const x = await m; f(x)\<close>: a rejection of
  \<open>m\<close> skips \<open>f\<close>.
\<close>

type_synonym 'a io = "world \<Rightarrow> (js_error + 'a) \<times> world"

definition ret :: "'a \<Rightarrow> 'a io" where
  "ret x w = (Inr x, w)"

definition throw :: "js_error \<Rightarrow> 'a io" where
  "throw e w = (Inl e, w)"

definition await :: "'a io \<Rightarrow> ('a \<Rightarrow> 'b io) \<Rightarrow> 'b io" where
  "await m f w = (case m w of (Inl e, w') \<Rightarrow> (Inl e, w') | (Inr x, w') \<Rightarrow> f x w')"

definition request :: "env \<Rightarrow> unit io" where
  "request env w =
     (case remote_error env (requests w) of
        None \<Rightarrow> (Inr (), w\<lparr>requests := Suc (requests w)\<rparr>)
      | Some m \<Rightarrow> (Inl (ApiError m), w\<lparr>requests := Suc (requests w)\<rparr>))"

definition emit :: "event \<Rightarrow> unit io" where
  "emit ev w = (Inr (), w\<lparr>trace := trace w @ [ev]\<rparr>)"

section \<open>The Waitlist Reader\<close>

text \<open>
  \<^verbatim>\<open>process.env.GOOGLE_PRIVATE_KEY.replace(/\\n/g, '\n')\<close> turns every backslash
  followed by the letter n into a line feed.
\<close>

fun replace_escaped_newlines :: "string \<Rightarrow> string" where
  "replace_escaped_newlines (a # b # cs) =
     (if a = CHR 0x5C \<and> b = CHR ''n'' then CHR 0x0A # replace_escaped_newlines cs
      else a # replace_escaped_newlines (b # cs))"
| "replace_escaped_newlines cs = cs"

record jwt =
  jwt_email :: "string option"
  jwt_key :: string
  jwt_scopes :: "string list"

text \<open>
  Lines 47 to 51 (and again 204 to 208). No variable is checked for presence. The
  method call on the private key throws when the variable is absent; an absent
  service-account email goes into the object as \<^verbatim>\<open>undefined\<close>.
\<close>

definition serviceAccountAuth :: "(string \<rightharpoonup> string) \<Rightarrow> js_error + jwt" where
  "serviceAccountAuth penv =
     (case penv ''GOOGLE_PRIVATE_KEY'' of
        None \<Rightarrow> Inl (undefined_read ''replace'')
      | Some k \<Rightarrow>
          Inr \<lparr>jwt_email = penv ''GOOGLE_SERVICE_ACCOUNT_EMAIL'',
               jwt_key = replace_escaped_newlines k,
               jwt_scopes = [''https://www.googleapis.com/auth/spreadsheets'']\<rparr>)"

record spreadsheet =
  doc_id :: "string option"
  doc_auth :: jwt

text \<open>
  Lines 47 to 57, repeated as lines 204 to 214: build the credentials, open the
  document, then two remote requests, \<^verbatim>\<open>doc.loadInfo()\<close> and
  \<^verbatim>\<open>sheet.getRows()\<close>; the second answers with the rows of the sheet as they are.
\<close>

definition load_rows :: "env \<Rightarrow> row list io" where
  "load_rows env =
     (case serviceAccountAuth (process_env env) of
        Inl e \<Rightarrow> throw e
      | Inr serviceAccountAuth' \<Rightarrow>
          (let doc = \<lparr>doc_id = process_env env ''SPREADSHEET_ID'', doc_auth = serviceAccountAuth'\<rparr>
           in await (request env) (\<lambda>_.
              await (request env) (\<lambda>_ w. (Inr (sheet w), w)))))"

definition getNewWaitlistEntries :: "env \<Rightarrow> user list io" where
  "getNewWaitlistEntries env = await (load_rows env) (\<lambda>rows. ret (eligible_rows rows))"

section \<open>The Mailer\<close>

record graph_client =
  tenant_id :: "string option"
  client_id :: "string option"
  client_secret :: "string option"

text \<open>
  Lines 77 to 93. \<^verbatim>\<open>new ClientSecretCredential(tenantId, clientId, clientSecret)\<close>
  refuses a missing value: the constructor of the identity library tests its three
  parameters in this order and throws for the first that is \<^verbatim>\<open>undefined\<close> or
  empty. Otherwise the client is built; nothing is requested yet.
\<close>

definition getGraphClient :: "env \<Rightarrow> js_error + graph_client" where
  "getGraphClient env =
     (let tenantId = process_env env ''TENANT_ID'';
          clientId = process_env env ''CLIENT_ID'';
          clientSecret = process_env env ''CLIENT_SECRET''
      in if \<not> truthy tenantId then Inl (ApiError (credential_error env ''tenantId''))
         else if \<not> truthy clientId then Inl (ApiError (credential_error env ''clientId''))
         else if \<not> truthy clientSecret then Inl (ApiError (credential_error env ''clientSecret''))
         else Inr \<lparr>tenant_id = tenantId, client_id = clientId, client_secret = clientSecret\<rparr>)"

text \<open>
  Lines 95 to 200: one \<^verbatim>\<open>post\<close> to the \<^verbatim>\<open>sendMail\<close> endpoint; when it is answered
  the mail is out and the function returns \<^verbatim>\<open>true\<close>.
\<close>

definition sendSpikeWelcomeEmail :: "env \<Rightarrow> graph_client \<Rightarrow> string \<Rightarrow> bool io" where
  "sendSpikeWelcomeEmail env graphClient recipientEmail =
     await (request env) (\<lambda>_.
     await (emit (SendMail recipientEmail)) (\<lambda>_. ret True))"

section \<open>The Marker\<close>

text \<open>
  Lines 202 to 217. The rows are loaded again and indexed by position. An index at or
  beyond the end gives \<^verbatim>\<open>undefined\<close>, and the call of \<^verbatim>\<open>set\<close> on it throws.
  \<^verbatim>\<open>save\<close> is one more remote request; when it is answered the changed row has
  replaced the row at its position in the sheet.
\<close>

definition save :: "env \<Rightarrow> nat \<Rightarrow> row \<Rightarrow> unit io" where
  "save env i r =
     await (request env) (\<lambda>_ w.
       (Inr (), w\<lparr>sheet := (sheet w)[i := r], trace := trace w @ [SaveRow i]\<rparr>))"

definition markUserAsEmailed :: "env \<Rightarrow> nat \<Rightarrow> unit io" where
  "markUserAsEmailed env rowIdx =
     await (load_rows env) (\<lambda>rows.
       if rowIdx < length rows
       then save env rowIdx (set_cell (rows ! rowIdx) ''EmailSent'' ''true'')
       else throw (undefined_read ''set''))"

section \<open>The Entry Handler\<close>

record response =
  status :: nat
  body :: string

text \<open>The loop of lines 20 to 24, over the array returned by the reader.\<close>

fun for_users :: "env \<Rightarrow> graph_client \<Rightarrow> user list \<Rightarrow> unit io" where
  "for_users env graphClient [] = ret ()"
| "for_users env graphClient (u # us) =
     await (sendSpikeWelcomeEmail env graphClient (email u)) (\<lambda>_.
     await (markUserAsEmailed env (rowIndex u)) (\<lambda>_.
     await (emit (Log (''Sent welcome email to: '' @ email u))) (\<lambda>_.
     for_users env graphClient us)))"

text \<open>The \<^verbatim>\<open>catch\<close> block of lines 36 to 42.\<close>

definition catch :: "js_error \<Rightarrow> world \<Rightarrow> response \<times> world" where
  "catch e w =
     (\<lparr>status = 500, body = ''Error processing waitlist: '' @ message e\<rparr>,
      w\<lparr>trace := trace w @ [LogError (''Error processing waitlist: '' @ message e)]\<rparr>)"

text \<open>The exported function, lines 12 to 43; \<^verbatim>\<open>context.res\<close> is its result.\<close>

definition ProcessWaitlistEntries :: "env \<Rightarrow> world \<Rightarrow> response \<times> world" where
  "ProcessWaitlistEntries env w =
     (case getNewWaitlistEntries env w of
        (Inl e, w1) \<Rightarrow> catch e w1
      | (Inr newWaitlistUsers, w1) \<Rightarrow>
          if length newWaitlistUsers > 0 then
            (case getGraphClient env of
               Inl e \<Rightarrow> catch e w1
             | Inr graphClient \<Rightarrow>
                 (case for_users env graphClient newWaitlistUsers w1 of
                    (Inl e, w2) \<Rightarrow> catch e w2
                  | (Inr _, w2) \<Rightarrow>
                      (\<lparr>status = 200,
                        body = ''Successfully sent emails to '' @ decimal (length newWaitlistUsers)
                               @ '' new waitlist entries''\<rparr>, w2)))
          else (\<lparr>status = 200, body = ''No new waitlist entries to process''\<rparr>, w1))"

section \<open>The specification's words\<close>

text \<open>
  Two strings are equal up to case when they have the same letters once both are put in
  upper case.
\<close>

definition upper_char :: "char \<Rightarrow> char" where
  "upper_char c =
     (case map_of (zip ''abcdefghijklmnopqrstuvwxyz'' ''ABCDEFGHIJKLMNOPQRSTUVWXYZ'') c of
        None \<Rightarrow> c
      | Some d \<Rightarrow> d)"

definition equal_ignoring_case :: "string \<Rightarrow> string \<Rightarrow> bool" where
  "equal_ignoring_case s t = (map upper_char s = map upper_char t)"

text \<open>
  A row is eligible when its email field is a non-empty string and its sent field is
  absent, empty, or not equal to "true" up to case.
\<close>

definition spec_eligible :: "row \<Rightarrow> bool" where
  "spec_eligible r =
     ((case r ''Email'' of None \<Rightarrow> False | Some e \<Rightarrow> e \<noteq> []) \<and>
      (case r ''EmailSent'' of
         None \<Rightarrow> True
       | Some s \<Rightarrow> s = [] \<or> \<not> equal_ignoring_case s ''true''))"

text \<open>
  A count printed in decimal: a non-empty string of digits, without a leading zero
  unless it is "0", whose value read in base ten is the count.
\<close>

definition digit_value :: "char \<Rightarrow> nat" where
  "digit_value c =
     (case map_of (zip ''0123456789'' [0, 1, 2, 3, 4, 5, 6, 7, 8, 9]) c of
        None \<Rightarrow> 0
      | Some v \<Rightarrow> v)"

definition read_decimal :: "string \<Rightarrow> nat" where
  "read_decimal d = foldl (\<lambda>a c. 10 * a + digit_value c) 0 d"

definition is_decimal_of :: "string \<Rightarrow> nat \<Rightarrow> bool" where
  "is_decimal_of d n =
     (d \<noteq> [] \<and> list_all (\<lambda>c. c \<in> set ''0123456789'') d \<and>
      (hd d \<noteq> CHR ''0'' \<or> d = ''0'') \<and> read_decimal d = n)"

section \<open>Sample environments and sheets\<close>

text \<open>
  Concrete inputs on which the properties below are run: an environment with every
  variable set and every request answered (the wording it gives to the identity
  library's error is a sample), the same environment with one request
  rejected or one variable removed, a world at the start of an invocation, the three
  rows of the specification's scenario, and sheets with two and with twelve rows to be
  mailed.
\<close>

definition healthy_env :: env where
  "healthy_env =
     \<lparr>process_env = [''GOOGLE_SERVICE_ACCOUNT_EMAIL'' \<mapsto> ''svc@example.com'',
                     ''GOOGLE_PRIVATE_KEY'' \<mapsto> ''key'', ''SPREADSHEET_ID'' \<mapsto> ''sheet-1'',
                     ''TENANT_ID'' \<mapsto> ''t'', ''CLIENT_ID'' \<mapsto> ''c'', ''CLIENT_SECRET'' \<mapsto> ''s''],
      remote_error = (\<lambda>n. None),
      credential_error = (\<lambda>p. ''ClientSecretCredential: '' @ p @ '' is a required parameter.'')\<rparr>"

definition failing_at :: "nat \<Rightarrow> string \<Rightarrow> env" where
  "failing_at n m = healthy_env\<lparr>remote_error := (\<lambda>i. if i = n then Some m else None)\<rparr>"

definition without :: "string \<Rightarrow> env \<Rightarrow> env" where
  "without k e = e\<lparr>process_env := (process_env e)(k := None)\<rparr>"

definition fresh :: "row list \<Rightarrow> world" where
  "fresh rows = \<lparr>sheet = rows, trace = [], requests = 0\<rparr>"

definition scenario_rows :: "row list" where
  "scenario_rows =
     [[''Email'' \<mapsto> ''a@x.com'', ''EmailSent'' \<mapsto> ''''],
      [''Email'' \<mapsto> ''b@x.com'', ''EmailSent'' \<mapsto> ''true''],
      [''Email'' \<mapsto> '''', ''EmailSent'' \<mapsto> '''']]"

definition two_new_rows :: "row list" where
  "two_new_rows =
     [[''Email'' \<mapsto> ''a@x.com'', ''EmailSent'' \<mapsto> ''''],
      [''Email'' \<mapsto> ''b@x.com'']]"

definition twelve_new_rows :: "row list" where
  "twelve_new_rows = replicate 12 [''Email'' \<mapsto> ''n@x.com'']"

section \<open>Auxiliary facts\<close>

subsection \<open>Sequencing and remote requests\<close>

lemma await_cases:
  "await m f w = (r, w') \<longleftrightarrow>
     (\<exists>e. m w = (Inl e, w') \<and> r = Inl e) \<or> (\<exists>x w1. m w = (Inr x, w1) \<and> f x w1 = (r, w'))"
  by (auto simp: await_def split: prod.splits sum.splits)

lemma request_cases:
  "request env w = (r, w') \<longleftrightarrow>
     w' = w\<lparr>requests := Suc (requests w)\<rparr> \<and>
     r = (case remote_error env (requests w) of None \<Rightarrow> Inr () | Some m \<Rightarrow> Inl (ApiError m))"
  by (auto simp: request_def split: option.splits)

lemma load_rows_frame:
  assumes "load_rows env w = (r, w')"
  shows "sheet w' = sheet w \<and> trace w' = trace w \<and> (\<forall>rows. r = Inr rows \<longrightarrow> rows = sheet w)"
  using assms
  by (auto simp: load_rows_def throw_def Let_def await_cases request_cases
           split: sum.splits option.splits)

lemma send_effect:
  assumes "sendSpikeWelcomeEmail env gc a w = (r, w')"
  shows "sheet w' = sheet w \<and>
         (case r of Inl e \<Rightarrow> trace w' = trace w | Inr _ \<Rightarrow> trace w' = trace w @ [SendMail a])"
  using assms
  by (auto simp: sendSpikeWelcomeEmail_def await_cases request_cases emit_def ret_def
           split: option.splits)

lemma mark_effect:
  assumes "markUserAsEmailed env i w = (r, w')"
  shows "case r of
           Inl e \<Rightarrow> sheet w' = sheet w \<and> trace w' = trace w
         | Inr _ \<Rightarrow> i < length (sheet w) \<and>
                    sheet w' = (sheet w)[i := set_cell (sheet w ! i) ''EmailSent'' ''true''] \<and>
                    trace w' = trace w @ [SaveRow i]"
proof -
  from assms consider
      (fail) e where "load_rows env w = (Inl e, w')" "r = Inl e"
    | (cont) rows w1 where "load_rows env w = (Inr rows, w1)"
        "(if i < length rows then save env i (set_cell (rows ! i) ''EmailSent'' ''true'')
          else throw (undefined_read ''set'')) w1 = (r, w')"
    unfolding markUserAsEmailed_def await_cases by blast
  then show ?thesis
  proof cases
    case fail
    then show ?thesis using load_rows_frame by fastforce
  next
    case cont
    from load_rows_frame[OF cont(1)] have f: "sheet w1 = sheet w" "trace w1 = trace w" "rows = sheet w"
      by auto
    show ?thesis using cont(2) f
      by (auto simp: save_def throw_def await_cases request_cases split: if_splits option.splits sum.splits)
  qed
qed

subsection \<open>The reader\<close>

lemma scan_rows_eq:
  "scan_rows rows i acc =
     acc @ map (\<lambda>j. \<lparr>email = the (get (rows ! j) ''Email''), rowIndex = j\<rparr>)
             (filter (\<lambda>j. is_new (rows ! j)) [i..<length rows])"
proof (induction rows i acc rule: scan_rows.induct)
  case (1 rows i newUsers)
  show ?case
  proof (cases "i < length rows")
    case True
    then have u: "[i..<length rows] = i # [Suc i..<length rows]"
      by (simp add: upt_conv_Cons)
    show ?thesis
      using 1 True by (subst scan_rows.simps) (simp add: u Let_def)
  next
    case False
    then show ?thesis by (subst scan_rows.simps) simp
  qed
qed

lemma eligible_rows_eq:
  "eligible_rows rows =
     map (\<lambda>j. \<lparr>email = the (get (rows ! j) ''Email''), rowIndex = j\<rparr>)
         (filter (\<lambda>j. is_new (rows ! j)) [0..<length rows])"
  by (simp add: eligible_rows_def scan_rows_eq)

lemma toLowerCase_true: "toLowerCase s = ''true'' \<longleftrightarrow> equal_ignoring_case s ''true''"
proof -
  have l: "lower_char c = CHR ''t'' \<longleftrightarrow> upper_char c = CHR ''T''"
          "lower_char c = CHR ''r'' \<longleftrightarrow> upper_char c = CHR ''R''"
          "lower_char c = CHR ''u'' \<longleftrightarrow> upper_char c = CHR ''U''"
          "lower_char c = CHR ''e'' \<longleftrightarrow> upper_char c = CHR ''E''" for c
    by (auto simp: lower_char_def upper_char_def split: if_splits)
  have u: "map upper_char ''true'' = ''TRUE''"
    by (simp add: upper_char_def)
  show ?thesis
    unfolding toLowerCase_def equal_ignoring_case_def u
    by (auto simp: map_eq_Cons_conv l)
qed

lemma is_new_spec: "is_new r = spec_eligible r"
  by (auto simp: is_new_def spec_eligible_def get_def truthy_def Let_def toLowerCase_true
           split: option.splits)

lemma load_rows_ok:
  assumes "process_env env ''GOOGLE_PRIVATE_KEY'' \<noteq> None"
    and "remote_error env (requests w) = None"
    and "remote_error env (Suc (requests w)) = None"
  shows "load_rows env w = (Inr (sheet w), w\<lparr>requests := Suc (Suc (requests w))\<rparr>)"
  using assms
  by (auto simp: load_rows_def serviceAccountAuth_def Let_def await_def request_def)

lemma load_rows_no_key:
  assumes "process_env env ''GOOGLE_PRIVATE_KEY'' = None"
  shows "load_rows env w = (Inl (undefined_read ''replace''), w)"
  using assms by (simp add: load_rows_def serviceAccountAuth_def throw_def)

subsection \<open>The loop of the handler\<close>

lemma set_cell_idem: "set_cell (set_cell r k v) k v = set_cell r k v"
  by (simp add: set_cell_def)

lemma send_value:
  assumes "sendSpikeWelcomeEmail env gc a w = (Inr b, w')"
  shows "b = True"
  using assms
  by (auto simp: sendSpikeWelcomeEmail_def await_cases emit_def ret_def)

lemma for_users_run:
  assumes "for_users env gc us w = (r, w')"
  shows "\<exists>k extra. k \<le> length us \<and>
     trace w' = trace w @ concat (map (\<lambda>u. [SendMail (email u), SaveRow (rowIndex u),
                       Log (''Sent welcome email to: '' @ email u)]) (take k us)) @ extra \<and>
     length (sheet w') = length (sheet w) \<and>
     (\<forall>j<length (sheet w). sheet w' ! j =
        (if j \<in> rowIndex ` set (take k us) then set_cell (sheet w ! j) ''EmailSent'' ''true''
         else sheet w ! j)) \<and>
     (\<forall>u \<in> set (take k us). rowIndex u < length (sheet w)) \<and>
     (case r of
        Inr _ \<Rightarrow> k = length us \<and> extra = []
      | Inl e \<Rightarrow> k < length us \<and>
          (\<exists>wk. trace wk = trace w @ concat (map (\<lambda>u. [SendMail (email u), SaveRow (rowIndex u),
                       Log (''Sent welcome email to: '' @ email u)]) (take k us)) \<and>
             (extra = [] \<and> sendSpikeWelcomeEmail env gc (email (us ! k)) wk = (Inl e, w') \<or>
              extra = [SendMail (email (us ! k))] \<and>
                (\<exists>wm. sendSpikeWelcomeEmail env gc (email (us ! k)) wk = (Inr True, wm) \<and>
                      markUserAsEmailed env (rowIndex (us ! k)) wm = (Inl e, w')))))"
  using assms
proof (induction us arbitrary: w)
  case Nil
  then show ?case by (auto simp: ret_def split: sum.splits)
next
  case (Cons u us)
  let ?ev = "\<lambda>u. [SendMail (email u), SaveRow (rowIndex u),
                       Log (''Sent welcome email to: '' @ email u)]"
  obtain r1 w1 where s: "sendSpikeWelcomeEmail env gc (email u) w = (r1, w1)"
    by (cases "sendSpikeWelcomeEmail env gc (email u) w")
  note se = send_effect[OF s]
  show ?case
  proof (cases r1)
    case (Inl e)
    with Cons.prems s have "r = Inl e" "w' = w1"
      by (auto simp: await_cases)
    moreover from this s Inl have
      "trace w = trace w @ concat (map ?ev (take 0 (u # us))) \<and>
       sendSpikeWelcomeEmail env gc (email ((u # us) ! 0)) w = (Inl e, w')"
      by simp
    ultimately show ?thesis using se Inl
      by (intro exI[of _ 0] exI[of _ "[]"]) (simp, blast)
  next
    case (Inr b)
    obtain r2 w2 where m: "markUserAsEmailed env (rowIndex u) w1 = (r2, w2)"
      by (cases "markUserAsEmailed env (rowIndex u) w1")
    note me = mark_effect[OF m]
    show ?thesis
    proof (cases r2)
      case (Inl e)
      with Cons.prems s m Inr have "r = Inl e" "w' = w2"
        by (auto simp: await_cases)
      moreover from this s m Inl Inr send_value[of env gc "email u" w b w1] have
        "trace w = trace w @ concat (map ?ev (take 0 (u # us))) \<and>
         sendSpikeWelcomeEmail env gc (email ((u # us) ! 0)) w = (Inr True, w1) \<and>
         markUserAsEmailed env (rowIndex ((u # us) ! 0)) w1 = (Inl e, w')"
        by simp
      ultimately show ?thesis using se me Inl Inr
        by (intro exI[of _ 0] exI[of _ "[SendMail (email u)]"]) (simp, blast)
    next
      case Inr2: (Inr x)
      define w3 where "w3 = w2\<lparr>trace := trace w2 @ [Log (''Sent welcome email to: '' @ email u)]\<rparr>"
      from Cons.prems s m Inr Inr2 have rest: "for_users env gc us w3 = (r, w')"
        by (auto simp: await_cases emit_def w3_def)
      from se me Inr Inr2 have
        i: "rowIndex u < length (sheet w)" and
        sh: "sheet w3 = (sheet w)[rowIndex u := set_cell (sheet w ! rowIndex u) ''EmailSent'' ''true'']" and
        tr: "trace w3 = trace w @ ?ev u"
        by (auto simp: w3_def)
      from Cons.IH[OF rest] obtain k extra where k: "k \<le> length us"
        and t: "trace w' = trace w3 @ concat (map ?ev (take k us)) @ extra"
        and l: "length (sheet w') = length (sheet w3)"
        and p: "\<forall>j<length (sheet w3). sheet w' ! j =
                  (if j \<in> rowIndex ` set (take k us) then set_cell (sheet w3 ! j) ''EmailSent'' ''true''
                   else sheet w3 ! j)"
        and b: "\<forall>u \<in> set (take k us). rowIndex u < length (sheet w3)"
        and c: "case r of Inr _ \<Rightarrow> k = length us \<and> extra = []
                | Inl e \<Rightarrow> k < length us \<and>
                   (\<exists>wk. trace wk = trace w3 @ concat (map ?ev (take k us)) \<and>
                     (extra = [] \<and> sendSpikeWelcomeEmail env gc (email (us ! k)) wk = (Inl e, w') \<or>
                      extra = [SendMail (email (us ! k))] \<and>
                        (\<exists>wm. sendSpikeWelcomeEmail env gc (email (us ! k)) wk = (Inr True, wm) \<and>
                              markUserAsEmailed env (rowIndex (us ! k)) wm = (Inl e, w'))))"
        by blast
      have p': "\<forall>j<length (sheet w). sheet w' ! j =
                  (if j \<in> rowIndex ` set (take (Suc k) (u # us))
                   then set_cell (sheet w ! j) ''EmailSent'' ''true'' else sheet w ! j)"
        using p i by (auto simp: sh nth_list_update set_cell_idem)
      show ?thesis
        apply (intro exI[of _ "Suc k"] exI[of _ extra] conjI)
        subgoal using k by simp
        subgoal using t tr by simp
        subgoal using l sh by simp
        subgoal by (rule p')
        subgoal using b i sh by simp
        subgoal using c tr by (auto split: sum.splits)
        done
    qed
  qed
qed

lemma for_users_completed:
  assumes "for_users env gc us w = (Inr (), w')"
  shows "trace w' = trace w @ concat (map (\<lambda>u. [SendMail (email u), SaveRow (rowIndex u),
                       Log (''Sent welcome email to: '' @ email u)]) us) \<and>
     length (sheet w') = length (sheet w) \<and>
     (\<forall>j<length (sheet w). sheet w' ! j =
        (if j \<in> rowIndex ` set us then set_cell (sheet w ! j) ''EmailSent'' ''true''
         else sheet w ! j))"
proof -
  from for_users_run[OF assms] obtain k extra where
    a: "trace w' = trace w @ concat (map (\<lambda>u. [SendMail (email u), SaveRow (rowIndex u),
                       Log (''Sent welcome email to: '' @ email u)]) (take k us)) @ extra"
       "length (sheet w') = length (sheet w)"
       "\<forall>j<length (sheet w). sheet w' ! j =
        (if j \<in> rowIndex ` set (take k us) then set_cell (sheet w ! j) ''EmailSent'' ''true''
         else sheet w ! j)" and
    c: "case (Inr () :: js_error + unit) of
        Inr _ \<Rightarrow> k = length us \<and> extra = []
      | Inl e \<Rightarrow> k < length us \<and>
          (\<exists>wk. trace wk = trace w @ concat (map (\<lambda>u. [SendMail (email u), SaveRow (rowIndex u),
                       Log (''Sent welcome email to: '' @ email u)]) (take k us)) \<and>
             (extra = [] \<and> sendSpikeWelcomeEmail env gc (email (us ! k)) wk = (Inl e, w') \<or>
              extra = [SendMail (email (us ! k))] \<and>
                (\<exists>wm. sendSpikeWelcomeEmail env gc (email (us ! k)) wk = (Inr True, wm) \<and>
                      markUserAsEmailed env (rowIndex (us ! k)) wm = (Inl e, w'))))"
    by blast
  from c have "k = length us" "extra = []" by simp_all
  with a show ?thesis by simp
qed


lemma for_users_append:
  "for_users env gc (xs @ ys) w = await (for_users env gc xs) (\<lambda>_. for_users env gc ys) w"
proof (induction xs arbitrary: w)
  case Nil
  then show ?case by (simp add: await_def ret_def)
next
  case (Cons x xs)
  show ?case
    by (auto simp: await_def Cons split: prod.splits sum.splits)
qed

lemma no_failure_inside_completed_prefix:
  assumes "for_users env gc (take k' us) w = (Inr (), wk')" "k < k'" "k' \<le> length us"
    "for_users env gc (take k us) w = (Inr (), wk)"
  shows "\<exists>wm w3. sendSpikeWelcomeEmail env gc (email (us ! k)) wk = (Inr True, wm) \<and>
     markUserAsEmailed env (rowIndex (us ! k)) wm = (Inr (), w3)"
proof -
  have k: "k < length us" using assms(2,3) by simp
  have "k' = k + Suc (k' - Suc k)" using assms(2) by simp
  then have "take k' us = take k us @ take (Suc (k' - Suc k)) (drop k us)"
    by (metis take_add)
  also have "drop k us = (us ! k) # drop (Suc k) us"
    using k by (simp add: Cons_nth_drop_Suc)
  finally have "take k' us = take k us @ (us ! k) # take (k' - Suc k) (drop (Suc k) us)"
    by simp
  with assms(1) have "for_users env gc (take k us @ (us ! k) # take (k' - Suc k) (drop (Suc k) us)) w = (Inr (), wk')"
    by simp
  then have "for_users env gc ((us ! k) # take (k' - Suc k) (drop (Suc k) us)) wk = (Inr (), wk')"
    by (simp add: for_users_append await_def assms(4))
  then show ?thesis
    using send_value
    by (auto simp: await_cases)
qed

lemma failing_row_unique:
  assumes "k < length us" "for_users env gc (take k us) w = (Inr (), wk)"
    "sendSpikeWelcomeEmail env gc (email (us ! k)) wk = (Inl e, w2) \<or>
      (\<exists>wm. sendSpikeWelcomeEmail env gc (email (us ! k)) wk = (Inr True, wm) \<and>
            markUserAsEmailed env (rowIndex (us ! k)) wm = (Inl e, w2))"
    and "k' < length us" "for_users env gc (take k' us) w = (Inr (), wk')"
    "sendSpikeWelcomeEmail env gc (email (us ! k')) wk' = (Inl e', w2') \<or>
      (\<exists>wm. sendSpikeWelcomeEmail env gc (email (us ! k')) wk' = (Inr True, wm) \<and>
            markUserAsEmailed env (rowIndex (us ! k')) wm = (Inl e', w2'))"
  shows "k = k' \<and> wk = wk' \<and> e = e' \<and> w2 = w2'"
proof -
  have "k = k'"
  proof (rule ccontr)
    assume "k \<noteq> k'"
    then consider "k < k'" | "k' < k" by linarith
    then show False
    proof cases
      case 1
      from no_failure_inside_completed_prefix[OF assms(5) 1 _ assms(2)] assms(4,3)
      show False by auto
    next
      case 2
      from no_failure_inside_completed_prefix[OF assms(2) 2 _ assms(5)] assms(1,6)
      show False by auto
    qed
  qed
  with assms show ?thesis by auto
qed

subsection \<open>What the reader returns\<close>

lemma load_rows_requests:
  assumes "load_rows env w = (Inr rows, w')"
  shows "w' = w\<lparr>requests := Suc (Suc (requests w))\<rparr>"
  using assms
  by (auto simp: load_rows_def throw_def Let_def await_cases request_cases
           split: sum.splits option.splits)

lemma reader_frame:
  assumes "getNewWaitlistEntries env w = (r, w1)"
  shows "sheet w1 = sheet w \<and> trace w1 = trace w \<and>
         (\<forall>us. r = Inr us \<longrightarrow> us = eligible_rows (sheet w) \<and>
                w1 = w\<lparr>requests := Suc (Suc (requests w))\<rparr>)"
proof -
  from assms consider
      (fail) e where "load_rows env w = (Inl e, w1)" "r = Inl e"
    | (cont) rows w0 where "load_rows env w = (Inr rows, w0)" "ret (eligible_rows rows) w0 = (r, w1)"
    unfolding getNewWaitlistEntries_def await_cases by blast
  then show ?thesis
  proof cases
    case fail
    then show ?thesis using load_rows_frame by fastforce
  next
    case cont
    with load_rows_frame[OF cont(1)] load_rows_requests[OF cont(1)] show ?thesis
      by (auto simp: ret_def)
  qed
qed

lemma reader_ok:
  assumes "process_env env ''GOOGLE_PRIVATE_KEY'' \<noteq> None"
    and "remote_error env (requests w) = None"
    and "remote_error env (Suc (requests w)) = None"
  shows "getNewWaitlistEntries env w =
           (Inr (eligible_rows (sheet w)), w\<lparr>requests := Suc (Suc (requests w))\<rparr>)"
  using assms by (simp add: getNewWaitlistEntries_def await_def load_rows_ok ret_def)

lemma eligible_rows_index:
  "rowIndex ` set (eligible_rows rows) = {j. j < length rows \<and> is_new (rows ! j)}"
  by (auto simp: eligible_rows_eq image_iff)

lemma eligible_rows_empty:
  "eligible_rows rows = [] \<longleftrightarrow> (\<forall>j<length rows. \<not> is_new (rows ! j))"
  by (auto simp: eligible_rows_eq filter_empty_conv)

lemma eligible_rows_positions:
  "map rowIndex (eligible_rows rows) = filter (\<lambda>j. is_new (rows ! j)) [0..<length rows]"
  by (simp add: eligible_rows_eq comp_def)

lemma eligible_rows_distinct: "distinct (map rowIndex (eligible_rows rows))"
  by (simp add: eligible_rows_positions)

lemma eligible_rows_sorted: "sorted_wrt (<) (map rowIndex (eligible_rows rows))"
  by (simp add: eligible_rows_positions sorted_wrt_filter)

lemma eligible_rows_entries:
  assumes "u \<in> set (eligible_rows rows)"
  shows "rowIndex u < length rows \<and> get (rows ! rowIndex u) ''Email'' = Some (email u)"
  using assms
  by (auto simp: eligible_rows_eq is_new_def truthy_def Let_def split: option.splits)

lemma marked_not_new: "\<not> is_new (set_cell r ''EmailSent'' ''true'')"
  by (simp add: is_new_def set_cell_def get_def truthy_def toLowerCase_def lower_char_def)

lemma eligible_rows_all_new:
  assumes "\<forall>r\<in>set rows. is_new r"
  shows "length (eligible_rows rows) = length rows"
proof -
  have "filter (\<lambda>j. is_new (rows ! j)) [0..<length rows] = [0..<length rows]"
    using assms by (intro filter_True) simp
  then show ?thesis by (simp add: eligible_rows_eq)
qed

subsection \<open>Printing a count\<close>

lemma digit_char_facts:
  assumes "d < 10"
  shows "digit_char d \<in> set ''0123456789'' \<and> digit_value (digit_char d) = d \<and>
         (digit_char d = CHR ''0'' \<longleftrightarrow> d = 0)"
proof -
  from assms have "d = 0 \<or> d = 1 \<or> d = 2 \<or> d = 3 \<or> d = 4 \<or> d = 5 \<or> d = 6 \<or> d = 7 \<or> d = 8 \<or> d = 9"
    by arith
  then show ?thesis
    by (elim disjE) (simp_all add: digit_char_def digit_value_def)
qed

lemma read_decimal_snoc: "read_decimal (d @ [c]) = 10 * read_decimal d + digit_value c"
  by (simp add: read_decimal_def)

lemma decimal_is_decimal: "is_decimal_of (decimal n) n"
proof (induction n rule: decimal.induct)
  case (1 n)
  show ?case
  proof (cases "n < 10")
    case True
    with digit_char_facts[OF True] show ?thesis
      by (subst decimal.simps) (auto simp: is_decimal_of_def read_decimal_def)
  next
    case False
    with 1 have ih: "is_decimal_of (decimal (n div 10)) (n div 10)" by simp
    have m: "n mod 10 < 10" by simp
    from False have pos: "n div 10 \<noteq> 0" by simp
    have hd0: "hd (decimal (n div 10)) \<noteq> CHR ''0''"
    proof
      assume "hd (decimal (n div 10)) = CHR ''0''"
      with ih have "decimal (n div 10) = ''0''" by (simp add: is_decimal_of_def)
      with ih have "n div 10 = 0" by (simp add: is_decimal_of_def read_decimal_def digit_value_def)
      with pos show False by simp
    qed
    have d: "decimal n = decimal (n div 10) @ [digit_char (n mod 10)]"
      using False by (subst decimal.simps) simp
    from ih have ne: "decimal (n div 10) \<noteq> []"
      and dg: "list_all (\<lambda>c. c \<in> set ''0123456789'') (decimal (n div 10))"
      and rd: "read_decimal (decimal (n div 10)) = n div 10"
      by (simp_all add: is_decimal_of_def)
    from digit_char_facts[OF m] have c1: "digit_char (n mod 10) \<in> set ''0123456789''"
      and c2: "digit_value (digit_char (n mod 10)) = n mod 10"
      by blast+
    have "hd (decimal n) \<noteq> CHR ''0''"
      unfolding d using ne hd0 by simp
    moreover have "list_all (\<lambda>c. c \<in> set ''0123456789'') (decimal n)"
      unfolding d using dg c1 by (simp del: set_simps)
    moreover have "read_decimal (decimal n) = n"
      unfolding d by (simp add: read_decimal_snoc rd c2)
    moreover have "decimal n \<noteq> []"
      unfolding d by simp
    ultimately show ?thesis
      unfolding is_decimal_of_def by blast
  qed
qed

subsection \<open>Runs in which the requests are answered\<close>

lemma getGraphClient_ok:
  assumes "truthy (process_env env ''TENANT_ID'')" "truthy (process_env env ''CLIENT_ID'')"
    "truthy (process_env env ''CLIENT_SECRET'')"
  shows "getGraphClient env =
           Inr \<lparr>tenant_id = process_env env ''TENANT_ID'', client_id = process_env env ''CLIENT_ID'',
                client_secret = process_env env ''CLIENT_SECRET''\<rparr>"
  using assms by (simp add: getGraphClient_def)

lemma send_ok:
  assumes "remote_error env (requests w) = None"
  shows "sendSpikeWelcomeEmail env gc a w =
           (Inr True, w\<lparr>requests := Suc (requests w), trace := trace w @ [SendMail a]\<rparr>)"
  using assms
  by (simp add: sendSpikeWelcomeEmail_def await_def request_def emit_def ret_def)

lemma mark_ok:
  assumes "process_env env ''GOOGLE_PRIVATE_KEY'' \<noteq> None"
    and "remote_error env (requests w) = None"
    and "remote_error env (Suc (requests w)) = None"
    and "remote_error env (Suc (Suc (requests w))) = None"
    and "i < length (sheet w)"
  shows "markUserAsEmailed env i w =
           (Inr (), w\<lparr>requests := Suc (Suc (Suc (requests w))),
                      sheet := (sheet w)[i := set_cell (sheet w ! i) ''EmailSent'' ''true''],
                      trace := trace w @ [SaveRow i]\<rparr>)"
  using assms
  by (simp add: markUserAsEmailed_def await_def load_rows_ok save_def request_def)

lemma mark_out_of_range:
  assumes "process_env env ''GOOGLE_PRIVATE_KEY'' \<noteq> None"
    and "remote_error env (requests w) = None"
    and "remote_error env (Suc (requests w)) = None"
    and "length (sheet w) \<le> i"
  shows "markUserAsEmailed env i w =
           (Inl (undefined_read ''set''), w\<lparr>requests := Suc (Suc (requests w))\<rparr>)"
  using assms
  by (simp add: markUserAsEmailed_def await_def load_rows_ok throw_def)

lemma for_users_ok:
  assumes "process_env env ''GOOGLE_PRIVATE_KEY'' \<noteq> None"
    and "\<forall>n. remote_error env n = None"
    and "\<forall>u\<in>set us. rowIndex u < length (sheet w)"
  shows "\<exists>w'. for_users env gc us w = (Inr (), w')"
  using assms(3)
proof (induction us arbitrary: w)
  case Nil
  then show ?case by (simp add: ret_def)
next
  case (Cons u us)
  define w1 where "w1 = w\<lparr>requests := Suc (requests w), trace := trace w @ [SendMail (email u)]\<rparr>"
  define w2 where "w2 = w1\<lparr>requests := Suc (Suc (Suc (requests w1))),
                      sheet := (sheet w1)[rowIndex u := set_cell (sheet w1 ! rowIndex u) ''EmailSent'' ''true''],
                      trace := trace w1 @ [SaveRow (rowIndex u)]\<rparr>"
  define w3 where "w3 = w2\<lparr>trace := trace w2 @ [Log (''Sent welcome email to: '' @ email u)]\<rparr>"
  have s: "sendSpikeWelcomeEmail env gc (email u) w = (Inr True, w1)"
    unfolding w1_def using assms(2) by (intro send_ok) simp
  have i: "rowIndex u < length (sheet w1)"
    using Cons.prems by (simp add: w1_def)
  have m: "markUserAsEmailed env (rowIndex u) w1 = (Inr (), w2)"
    unfolding w2_def using assms(1,2) i by (intro mark_ok) simp_all
  have "\<forall>v\<in>set us. rowIndex v < length (sheet w3)"
    using Cons.prems by (simp add: w3_def w2_def w1_def)
  from Cons.IH[OF this] obtain w' where "for_users env gc us w3 = (Inr (), w')" ..
  then show ?case
    by (simp add: await_def s m emit_def w3_def)
qed

subsection \<open>The four ways through the handler\<close>

lemma handler_cases:
  assumes "ProcessWaitlistEntries env w = (res, w')"
  obtains
    (reader_failed) e w1 where
      "getNewWaitlistEntries env w = (Inl e, w1)" "(res, w') = catch e w1"
  | (none) "getNewWaitlistEntries env w = (Inr [], w')"
      "res = \<lparr>status = 200, body = ''No new waitlist entries to process''\<rparr>"
  | (credential_failed) us w1 e where
      "getNewWaitlistEntries env w = (Inr us, w1)" "us \<noteq> []"
      "getGraphClient env = Inl e" "(res, w') = catch e w1"
  | (loop_failed) us w1 gc e w2 where
      "getNewWaitlistEntries env w = (Inr us, w1)" "us \<noteq> []"
      "getGraphClient env = Inr gc"
      "for_users env gc us w1 = (Inl e, w2)"
      "(res, w') = catch e w2"
  | (completed) us w1 gc where
      "getNewWaitlistEntries env w = (Inr us, w1)" "us \<noteq> []"
      "getGraphClient env = Inr gc"
      "for_users env gc us w1 = (Inr (), w')"
      "res = \<lparr>status = 200,
              body = ''Successfully sent emails to '' @ decimal (length us) @ '' new waitlist entries''\<rparr>"
  using assms
  by (auto simp: ProcessWaitlistEntries_def split: prod.splits sum.splits if_splits)

subsection \<open>A run in which nothing is missing and nothing is rejected\<close>

lemma run_with_all_requests_answered:
  assumes "process_env env ''GOOGLE_PRIVATE_KEY'' \<noteq> None"
    and "truthy (process_env env ''TENANT_ID'')"
    and "truthy (process_env env ''CLIENT_ID'')"
    and "truthy (process_env env ''CLIENT_SECRET'')"
    and "\<forall>n. remote_error env n = None"
  shows "(eligible_rows (sheet w) \<noteq> [] \<longrightarrow>
            (\<exists>w' d. ProcessWaitlistEntries env w =
               (\<lparr>status = 200,
                 body = ''Successfully sent emails to '' @ d @ '' new waitlist entries''\<rparr>, w') \<and>
               is_decimal_of d (length (eligible_rows (sheet w))) \<and>
               trace w' = trace w @
                 concat (map (\<lambda>u. [SendMail (email u), SaveRow (rowIndex u),
                                    Log (''Sent welcome email to: '' @ email u)])
                           (eligible_rows (sheet w))))) \<and>
         (sheet w = scenario_rows \<longrightarrow>
            eligible_rows (sheet w) = [\<lparr>email = ''a@x.com'', rowIndex = 0\<rparr>] \<and>
            (\<exists>w'. ProcessWaitlistEntries env w =
               (\<lparr>status = 200, body = ''Successfully sent emails to 1 new waitlist entries''\<rparr>, w') \<and>
               trace w' = trace w @ [SendMail ''a@x.com'', SaveRow 0,
                                     Log ''Sent welcome email to: a@x.com''] \<and>
               sheet w' = [[''Email'' \<mapsto> ''a@x.com'', ''EmailSent'' \<mapsto> ''true''],
                           [''Email'' \<mapsto> ''b@x.com'', ''EmailSent'' \<mapsto> ''true''],
                           [''Email'' \<mapsto> '''', ''EmailSent'' \<mapsto> '''']])) \<and>
         (sheet w = twelve_new_rows \<longrightarrow>
            (\<exists>w'. ProcessWaitlistEntries env w =
               (\<lparr>status = 200, body = ''Successfully sent emails to 12 new waitlist entries''\<rparr>, w')))"
proof -
  let ?w1 = "w\<lparr>requests := Suc (Suc (requests w))\<rparr>"
  let ?us = "eligible_rows (sheet w)"
  let ?ev = "\<lambda>u. [SendMail (email u), SaveRow (rowIndex u),
                                    Log (''Sent welcome email to: '' @ email u)]"
  have r: "getNewWaitlistEntries env w = (Inr ?us, ?w1)"
    using assms by (intro reader_ok) simp_all
  note g = getGraphClient_ok[OF assms(2,3,4)]
  have run: "\<exists>w'. ProcessWaitlistEntries env w =
               (\<lparr>status = 200,
                 body = ''Successfully sent emails to '' @ decimal (length ?us)
                        @ '' new waitlist entries''\<rparr>, w') \<and>
               trace w' = trace w @ concat (map ?ev ?us)"
    if ne: "?us \<noteq> []"
  proof -
    have "\<forall>u\<in>set ?us. rowIndex u < length (sheet ?w1)"
      using eligible_rows_index[of "sheet w"] by auto
    from for_users_ok[OF assms(1,5) this] obtain w' where
      f: "for_users env \<lparr>tenant_id = process_env env ''TENANT_ID'', client_id = process_env env ''CLIENT_ID'',
                client_secret = process_env env ''CLIENT_SECRET''\<rparr> ?us ?w1 = (Inr (), w')"
      by blast
    from for_users_completed[OF f] have "trace w' = trace w @ concat (map ?ev ?us)"
      by simp
    with r ne f g show ?thesis
      by (simp add: ProcessWaitlistEntries_def)
  qed
  have general: "?us \<noteq> [] \<longrightarrow>
            (\<exists>w' d. ProcessWaitlistEntries env w =
               (\<lparr>status = 200,
                 body = ''Successfully sent emails to '' @ d @ '' new waitlist entries''\<rparr>, w') \<and>
               is_decimal_of d (length ?us) \<and>
               trace w' = trace w @ concat (map ?ev ?us))"
    using run decimal_is_decimal[of "length ?us"] by blast
  have e: "eligible_rows scenario_rows = [\<lparr>email = ''a@x.com'', rowIndex = 0\<rparr>]"
    by (simp add: scenario_rows_def eligible_rows_def scan_rows.simps is_new_def truthy_def
          toLowerCase_def lower_char_def get_def)
  have scenario: "eligible_rows (sheet w) = [\<lparr>email = ''a@x.com'', rowIndex = 0\<rparr>] \<and>
            (\<exists>w'. ProcessWaitlistEntries env w =
               (\<lparr>status = 200, body = ''Successfully sent emails to 1 new waitlist entries''\<rparr>, w') \<and>
               trace w' = trace w @ [SendMail ''a@x.com'', SaveRow 0,
                                     Log ''Sent welcome email to: a@x.com''] \<and>
               sheet w' = [[''Email'' \<mapsto> ''a@x.com'', ''EmailSent'' \<mapsto> ''true''],
                           [''Email'' \<mapsto> ''b@x.com'', ''EmailSent'' \<mapsto> ''true''],
                           [''Email'' \<mapsto> '''', ''EmailSent'' \<mapsto> '''']])"
    if sc: "sheet w = scenario_rows"
  proof
    from e show "eligible_rows (sheet w) = [\<lparr>email = ''a@x.com'', rowIndex = 0\<rparr>]"
      by (simp add: sc)
    show "\<exists>w'. ProcessWaitlistEntries env w =
               (\<lparr>status = 200, body = ''Successfully sent emails to 1 new waitlist entries''\<rparr>, w') \<and>
               trace w' = trace w @ [SendMail ''a@x.com'', SaveRow 0,
                                     Log ''Sent welcome email to: a@x.com''] \<and>
               sheet w' = [[''Email'' \<mapsto> ''a@x.com'', ''EmailSent'' \<mapsto> ''true''],
                           [''Email'' \<mapsto> ''b@x.com'', ''EmailSent'' \<mapsto> ''true''],
                           [''Email'' \<mapsto> '''', ''EmailSent'' \<mapsto> '''']]"
      using assms(1,5) sc
      by (simp add: ProcessWaitlistEntries_def r g e [unfolded scenario_rows_def] send_ok mark_ok
            await_def emit_def ret_def decimal.simps digit_char_def scenario_rows_def set_cell_def)
  qed
  have twelve: "\<exists>w'. ProcessWaitlistEntries env w =
               (\<lparr>status = 200, body = ''Successfully sent emails to 12 new waitlist entries''\<rparr>, w')"
    if tw: "sheet w = twelve_new_rows"
  proof -
    have "\<forall>r\<in>set twelve_new_rows. is_new r"
      by (simp add: twelve_new_rows_def is_new_def get_def truthy_def)
    from eligible_rows_all_new[OF this] have n: "length ?us = 12"
      by (simp add: tw twelve_new_rows_def)
    then have "?us \<noteq> []" by auto
    from run[OF this] n show ?thesis
      by (auto simp: decimal.simps digit_char_def)
  qed
  from general scenario twelve show ?thesis by blast
qed

subsection \<open>Evaluating a run on a concrete input\<close>

lemmas run_simps =
  ProcessWaitlistEntries_def getNewWaitlistEntries_def load_rows_def serviceAccountAuth_def
  getGraphClient_def sendSpikeWelcomeEmail_def markUserAsEmailed_def save_def catch_def
  await_def request_def ret_def throw_def emit_def set_cell_def get_def undefined_read_def
  eligible_rows_def scan_rows.simps is_new_def truthy_def toLowerCase_def lower_char_def
  decimal.simps digit_char_def Let_def healthy_env_def fresh_def two_new_rows_def

section \<open>Properties\<close>

text \<open>
  C1. For every list of rows, the reader's result holds exactly the rows whose email
  field is a non-empty string and whose sent field is absent, empty or not equal to
  "true" up to case, in the order of the sheet, each with its position; every such row
  is in the result and no other row is. When the private key is configured and the two
  requests of the reader are answered, the reader returns this list for the sheet.
\<close>

theorem reader_selects_exactly_the_eligible_rows:
  "eligible_rows rows =
     map (\<lambda>i. \<lparr>email = the (get (rows ! i) ''Email''), rowIndex = i\<rparr>)
         (filter (\<lambda>i. spec_eligible (rows ! i)) [0..<length rows])
   \<and> (\<forall>i<length rows. (\<exists>u\<in>set (eligible_rows rows). rowIndex u = i) = spec_eligible (rows ! i))
   \<and> (process_env env ''GOOGLE_PRIVATE_KEY'' \<noteq> None \<and> remote_error env (requests w) = None \<and>
      remote_error env (Suc (requests w)) = None \<longrightarrow>
      fst (getNewWaitlistEntries env w) = Inr (eligible_rows (sheet w)))"
proof (intro conjI impI)
  show e: "eligible_rows rows =
     map (\<lambda>i. \<lparr>email = the (get (rows ! i) ''Email''), rowIndex = i\<rparr>)
         (filter (\<lambda>i. spec_eligible (rows ! i)) [0..<length rows])"
    by (simp add: eligible_rows_eq is_new_spec)
  show "\<forall>i<length rows. (\<exists>u\<in>set (eligible_rows rows). rowIndex u = i) = spec_eligible (rows ! i)"
    unfolding e by auto
next
  assume "process_env env ''GOOGLE_PRIVATE_KEY'' \<noteq> None \<and> remote_error env (requests w) = None \<and>
      remote_error env (Suc (requests w)) = None"
  then show "fst (getNewWaitlistEntries env w) = Inr (eligible_rows (sheet w))"
    by (simp add: getNewWaitlistEntries_def await_def load_rows_ok ret_def)
qed

theorem reader_selects_exactly_the_eligible_rows_witness:
  "eligible_rows [[''Email'' \<mapsto> ''a@x.com'', ''EmailSent'' \<mapsto> ''''],
                  [''Email'' \<mapsto> ''b@x.com'', ''EmailSent'' \<mapsto> ''TRUE''],
                  [''EmailSent'' \<mapsto> ''''],
                  [''Email'' \<mapsto> ''c@x.com'', ''EmailSent'' \<mapsto> ''yes'']]
     = [\<lparr>email = ''a@x.com'', rowIndex = 0\<rparr>, \<lparr>email = ''c@x.com'', rowIndex = 3\<rparr>]
   \<and> fst (getNewWaitlistEntries
           healthy_env
           \<lparr>sheet = [[''Email'' \<mapsto> ''a@x.com'']], trace = [], requests = 0\<rparr>)
     = Inr [\<lparr>email = ''a@x.com'', rowIndex = 0\<rparr>]"
  using reader_selects_exactly_the_eligible_rows
    [of "[[''Email'' \<mapsto> ''a@x.com'', ''EmailSent'' \<mapsto> ''''],
          [''Email'' \<mapsto> ''b@x.com'', ''EmailSent'' \<mapsto> ''TRUE''],
          [''EmailSent'' \<mapsto> ''''],
          [''Email'' \<mapsto> ''c@x.com'', ''EmailSent'' \<mapsto> ''yes'']]"
        "healthy_env"
        "\<lparr>sheet = [[''Email'' \<mapsto> ''a@x.com'']], trace = [], requests = 0\<rparr>"]
  by (simp add: healthy_env_def spec_eligible_def equal_ignoring_case_def upper_char_def get_def upt_rec
        eligible_rows_def scan_rows.simps is_new_def truthy_def toLowerCase_def lower_char_def)




text \<open>
  C3. Whenever the reader returns the empty list, the handler answers with status 200
  and the body "No new waitlist entries to process". The world it leaves is the world
  at the start with two more requests, those of the reader: no mail is sent, no row is
  written, nothing is logged and no further request is issued.
\<close>

theorem no_new_entries_no_calls:
  assumes "getNewWaitlistEntries env w = (Inr [], w1)"
  shows "ProcessWaitlistEntries env w =
           (\<lparr>status = 200, body = ''No new waitlist entries to process''\<rparr>, w1) \<and>
         w1 = w\<lparr>requests := Suc (Suc (requests w))\<rparr>"
  using assms reader_frame[OF assms] by (simp add: ProcessWaitlistEntries_def)

theorem no_new_entries_no_calls_witness:
  "ProcessWaitlistEntries healthy_env
     (fresh [[''Email'' \<mapsto> ''a@x.com'', ''EmailSent'' \<mapsto> ''true''],
             [''Email'' \<mapsto> ''b@x.com'', ''EmailSent'' \<mapsto> ''True'']])
   = (\<lparr>status = 200, body = ''No new waitlist entries to process''\<rparr>,
      \<lparr>sheet = [[''Email'' \<mapsto> ''a@x.com'', ''EmailSent'' \<mapsto> ''true''],
                [''Email'' \<mapsto> ''b@x.com'', ''EmailSent'' \<mapsto> ''True'']],
       trace = [], requests = 2\<rparr>)"
proof -
  let ?w = "fresh [[''Email'' \<mapsto> ''a@x.com'', ''EmailSent'' \<mapsto> ''true''],
             [''Email'' \<mapsto> ''b@x.com'', ''EmailSent'' \<mapsto> ''True'']]"
  have h: "getNewWaitlistEntries healthy_env ?w = (Inr [], ?w\<lparr>requests := 2\<rparr>)"
    by (simp add: run_simps)
  from no_new_entries_no_calls[OF h] show ?thesis
    by (simp add: fresh_def)
qed

text \<open>
  C4. In every invocation, the effects added to the trace are, for the first \<open>k\<close>
  eligible rows in the order of the sheet, one send, then one write of that row's marker,
  then the log line, each row's group complete before the next row's begins. A
  run that answers 200 has made it through all eligible rows; a run that answers 500 adds
  only the error's log line, after at most the send of row \<open>k\<close>. The positions of
  the eligible rows are pairwise different, so that no row is written twice.
\<close>

theorem send_then_mark_row_by_row:
  assumes "ProcessWaitlistEntries env w = (res, w')"
  shows "let us = eligible_rows (sheet w) in
         \<exists>k extra. k \<le> length us \<and>
           trace w' = trace w @
             concat (map (\<lambda>u. [SendMail (email u), SaveRow (rowIndex u),
                                Log (''Sent welcome email to: '' @ email u)]) (take k us)) @ extra \<and>
           distinct (map rowIndex us) \<and>
           (status res = 200 \<and> k = length us \<and> extra = [] \<or>
            status res = 500 \<and>
              (extra = [LogError (body res)] \<or>
               k < length us \<and> extra = [SendMail (email (us ! k)), LogError (body res)]))"
proof -
  let ?ev = "\<lambda>u. [SendMail (email u), SaveRow (rowIndex u),
                                Log (''Sent welcome email to: '' @ email u)]"
  let ?us = "eligible_rows (sheet w)"
  let ?P = "\<lambda>k extra. k \<le> length ?us \<and> trace w' = trace w @ concat (map ?ev (take k ?us)) @ extra \<and>
           distinct (map rowIndex ?us) \<and>
           (status res = 200 \<and> k = length ?us \<and> extra = [] \<or>
            status res = 500 \<and>
              (extra = [LogError (body res)] \<or>
               k < length ?us \<and> extra = [SendMail (email (?us ! k)), LogError (body res)]))"
  note d = eligible_rows_distinct[of "sheet w"]
  from assms have "\<exists>k extra. ?P k extra"
  proof (cases rule: handler_cases)
    case (reader_failed e w1)
    with reader_frame[OF reader_failed(1)] d have "?P 0 [LogError (body res)]"
      by (auto simp: catch_def)
    then show ?thesis by blast
  next
    case none
    with reader_frame[OF none(1)] d have "?P 0 []"
      by auto
    then show ?thesis by blast
  next
    case (credential_failed us w1 e)
    with reader_frame[OF credential_failed(1)] d have "?P 0 [LogError (body res)]"
      by (auto simp: catch_def)
    then show ?thesis by blast
  next
    case (loop_failed us w1 gc e w2)
    from reader_frame[OF loop_failed(1)] have u: "us = ?us" "trace w1 = trace w"
      by auto
    from for_users_run[OF loop_failed(4)] obtain k extra where
      "k < length us" "trace w2 = trace w1 @ concat (map ?ev (take k us)) @ extra"
      "extra = [] \<or> extra = [SendMail (email (us ! k))]"
      by auto
    with loop_failed(5) u d have "?P k (extra @ [LogError (body res)])"
      by (auto simp: catch_def)
    then show ?thesis by blast
  next
    case (completed us w1 gc)
    from reader_frame[OF completed(1)] have u: "us = ?us" "trace w1 = trace w"
      by auto
    from for_users_run[OF completed(4)] have
      "trace w' = trace w1 @ concat (map ?ev us)"
      by auto
    with completed(5) u d have "?P (length ?us) []"
      by auto
    then show ?thesis by blast
  qed
  then show ?thesis by (simp add: Let_def)
qed

theorem send_then_mark_row_by_row_witness:
  "ProcessWaitlistEntries healthy_env (fresh two_new_rows) =
     (\<lparr>status = 200, body = ''Successfully sent emails to 2 new waitlist entries''\<rparr>,
      \<lparr>sheet = [[''Email'' \<mapsto> ''a@x.com'', ''EmailSent'' \<mapsto> ''true''],
                [''Email'' \<mapsto> ''b@x.com'', ''EmailSent'' \<mapsto> ''true'']],
       trace = [SendMail ''a@x.com'', SaveRow 0, Log ''Sent welcome email to: a@x.com'',
                SendMail ''b@x.com'', SaveRow 1, Log ''Sent welcome email to: b@x.com''],
       requests = 10\<rparr>) \<and>
   (let us = eligible_rows (sheet (fresh two_new_rows)) in
      \<exists>k extra. k \<le> length us \<and>
        [SendMail ''a@x.com'', SaveRow 0, Log ''Sent welcome email to: a@x.com'',
         SendMail ''b@x.com'', SaveRow 1, Log ''Sent welcome email to: b@x.com''] =
          concat (map (\<lambda>u. [SendMail (email u), SaveRow (rowIndex u),
                             Log (''Sent welcome email to: '' @ email u)]) (take k us)) @ extra \<and>
        distinct (map rowIndex us) \<and> k = length us \<and> extra = [])"
proof -
  have h: "ProcessWaitlistEntries healthy_env (fresh two_new_rows) =
     (\<lparr>status = 200, body = ''Successfully sent emails to 2 new waitlist entries''\<rparr>,
      \<lparr>sheet = [[''Email'' \<mapsto> ''a@x.com'', ''EmailSent'' \<mapsto> ''true''],
                [''Email'' \<mapsto> ''b@x.com'', ''EmailSent'' \<mapsto> ''true'']],
       trace = [SendMail ''a@x.com'', SaveRow 0, Log ''Sent welcome email to: a@x.com'',
                SendMail ''b@x.com'', SaveRow 1, Log ''Sent welcome email to: b@x.com''],
       requests = 10\<rparr>)"
    by (simp add: run_simps two_new_rows_def)
  from send_then_mark_row_by_row[OF h] show ?thesis
    using h by (simp add: Let_def fresh_def)
qed

text \<open>
  C5. After an invocation that answered 200, the eligible set of the sheet it leaves is
  empty, for every sheet at the start: a row marked "true" is no longer selected. A
  second invocation on that sheet whose reader gets its answers reports that there is
  nothing to process.
\<close>

theorem rerun_after_success_finds_nothing:
  assumes "ProcessWaitlistEntries env w = (res, w')" and "status res = 200"
  shows "eligible_rows (sheet w') = [] \<and>
         (process_env env2 ''GOOGLE_PRIVATE_KEY'' \<noteq> None \<and>
          remote_error env2 (requests w') = None \<and>
          remote_error env2 (Suc (requests w')) = None \<longrightarrow>
            ProcessWaitlistEntries env2 w' =
              (\<lparr>status = 200, body = ''No new waitlist entries to process''\<rparr>,
               w'\<lparr>requests := Suc (Suc (requests w'))\<rparr>))"
proof -
  have e: "eligible_rows (sheet w') = []"
    using assms(1)
  proof (cases rule: handler_cases)
    case (reader_failed e w1)
    with assms(2) show ?thesis by (simp add: catch_def)
  next
    case none
    with reader_frame[OF none(1)] show ?thesis by simp
  next
    case (credential_failed us w1 e)
    with assms(2) show ?thesis by (simp add: catch_def)
  next
    case (loop_failed us w1 gc e w2)
    with assms(2) show ?thesis by (simp add: catch_def)
  next
    case (completed us w1 gc)
    from reader_frame[OF completed(1)] have f: "us = eligible_rows (sheet w)" "sheet w1 = sheet w"
      by auto
    from for_users_run[OF completed(4)] have
      l: "length (sheet w') = length (sheet w1)" and
      p: "\<forall>j<length (sheet w1). sheet w' ! j =
        (if j \<in> rowIndex ` set us then set_cell (sheet w1 ! j) ''EmailSent'' ''true''
         else sheet w1 ! j)"
      by auto
    have "\<not> is_new (sheet w' ! j)" if "j < length (sheet w')" for j
    proof (cases "j \<in> rowIndex ` set us")
      case True
      with p l that show ?thesis by (simp add: marked_not_new)
    next
      case False
      with that l f have "\<not> is_new (sheet w ! j)"
        by (simp add: eligible_rows_index)
      with p l that False f show ?thesis by simp
    qed
    then show ?thesis by (simp add: eligible_rows_empty)
  qed
  moreover have "ProcessWaitlistEntries env2 w' =
              (\<lparr>status = 200, body = ''No new waitlist entries to process''\<rparr>,
               w'\<lparr>requests := Suc (Suc (requests w'))\<rparr>)"
    if "process_env env2 ''GOOGLE_PRIVATE_KEY'' \<noteq> None \<and>
          remote_error env2 (requests w') = None \<and>
          remote_error env2 (Suc (requests w')) = None"
    using that e by (simp add: ProcessWaitlistEntries_def reader_ok)
  ultimately show ?thesis by blast
qed

theorem rerun_after_success_finds_nothing_witness:
  "ProcessWaitlistEntries healthy_env (fresh two_new_rows) =
     (\<lparr>status = 200, body = ''Successfully sent emails to 2 new waitlist entries''\<rparr>,
      \<lparr>sheet = [[''Email'' \<mapsto> ''a@x.com'', ''EmailSent'' \<mapsto> ''true''],
                [''Email'' \<mapsto> ''b@x.com'', ''EmailSent'' \<mapsto> ''true'']],
       trace = [SendMail ''a@x.com'', SaveRow 0, Log ''Sent welcome email to: a@x.com'',
                SendMail ''b@x.com'', SaveRow 1, Log ''Sent welcome email to: b@x.com''],
       requests = 10\<rparr>) \<and>
   eligible_rows [[''Email'' \<mapsto> ''a@x.com'', ''EmailSent'' \<mapsto> ''true''],
                  [''Email'' \<mapsto> ''b@x.com'', ''EmailSent'' \<mapsto> ''true'']] = [] \<and>
   ProcessWaitlistEntries healthy_env
      \<lparr>sheet = [[''Email'' \<mapsto> ''a@x.com'', ''EmailSent'' \<mapsto> ''true''],
                [''Email'' \<mapsto> ''b@x.com'', ''EmailSent'' \<mapsto> ''true'']],
       trace = [SendMail ''a@x.com'', SaveRow 0, Log ''Sent welcome email to: a@x.com'',
                SendMail ''b@x.com'', SaveRow 1, Log ''Sent welcome email to: b@x.com''],
       requests = 10\<rparr> =
     (\<lparr>status = 200, body = ''No new waitlist entries to process''\<rparr>,
      \<lparr>sheet = [[''Email'' \<mapsto> ''a@x.com'', ''EmailSent'' \<mapsto> ''true''],
                [''Email'' \<mapsto> ''b@x.com'', ''EmailSent'' \<mapsto> ''true'']],
       trace = [SendMail ''a@x.com'', SaveRow 0, Log ''Sent welcome email to: a@x.com'',
                SendMail ''b@x.com'', SaveRow 1, Log ''Sent welcome email to: b@x.com''],
       requests = 12\<rparr>)"
proof -
  let ?res = "\<lparr>status = 200, body = ''Successfully sent emails to 2 new waitlist entries''\<rparr>"
  let ?w' = "\<lparr>sheet = [[''Email'' \<mapsto> ''a@x.com'', ''EmailSent'' \<mapsto> ''true''],
                [''Email'' \<mapsto> ''b@x.com'', ''EmailSent'' \<mapsto> ''true'']],
       trace = [SendMail ''a@x.com'', SaveRow 0, Log ''Sent welcome email to: a@x.com'',
                SendMail ''b@x.com'', SaveRow 1, Log ''Sent welcome email to: b@x.com''],
       requests = 10\<rparr>"
  have h: "ProcessWaitlistEntries healthy_env (fresh two_new_rows) = (?res, ?w')"
    by (simp add: run_simps)
  have s: "status ?res = 200" by simp
  from rerun_after_success_finds_nothing[OF h s, of healthy_env] show ?thesis
    using h by (simp add: healthy_env_def)
qed

text \<open>
  C6. What the handler does when a configuration value is missing. Private key absent:
  it fails before any remote request, with status 500 and the engine's message for the
  call of \<^verbatim>\<open>replace\<close> on \<^verbatim>\<open>undefined\<close>, which does not contain the name of the
  variable. Tenant id, client id or client secret absent or empty, with a row eligible:
  it fails after the reader's two requests and before any mail, with status 500 and the
  identity library's message for the first missing parameter, in the order tenantId,
  clientId, clientSecret. No row eligible: it does not fail and answers 200, whatever
  these three variables hold, absent and empty ones included. Reader's first request
  rejected by the spreadsheet client: status 500 with that client's message, before
  any mail.
\<close>

theorem missing_configuration_outcomes:
  "(process_env env ''GOOGLE_PRIVATE_KEY'' = None \<longrightarrow>
      ProcessWaitlistEntries env w =
        (\<lparr>status = 500,
          body = ''Error processing waitlist: '' @ message (undefined_read ''replace'')\<rparr>,
         w\<lparr>trace := trace w @
              [LogError (''Error processing waitlist: '' @ message (undefined_read ''replace''))]\<rparr>)) \<and>
   \<not> sublist ''GOOGLE_PRIVATE_KEY'' (message (undefined_read ''replace'')) \<and>
   (process_env env ''GOOGLE_PRIVATE_KEY'' \<noteq> None \<and> remote_error env (requests w) = None \<and>
    remote_error env (Suc (requests w)) = None \<and> eligible_rows (sheet w) \<noteq> [] \<longrightarrow>
      (\<forall>p. (\<not> truthy (process_env env ''TENANT_ID'') \<and> p = ''tenantId'' \<or>
            truthy (process_env env ''TENANT_ID'') \<and> \<not> truthy (process_env env ''CLIENT_ID'') \<and>
              p = ''clientId'' \<or>
            truthy (process_env env ''TENANT_ID'') \<and> truthy (process_env env ''CLIENT_ID'') \<and>
              \<not> truthy (process_env env ''CLIENT_SECRET'') \<and> p = ''clientSecret'') \<longrightarrow>
         ProcessWaitlistEntries env w =
           (\<lparr>status = 500, body = ''Error processing waitlist: '' @ credential_error env p\<rparr>,
            w\<lparr>requests := Suc (Suc (requests w)),
              trace := trace w @
                [LogError (''Error processing waitlist: '' @ credential_error env p)]\<rparr>))) \<and>
   (process_env env ''GOOGLE_PRIVATE_KEY'' \<noteq> None \<and> remote_error env (requests w) = None \<and>
    remote_error env (Suc (requests w)) = None \<and> eligible_rows (sheet w) = [] \<longrightarrow>
      ProcessWaitlistEntries
          (env\<lparr>process_env := (process_env env)
                  (''TENANT_ID'' := t, ''CLIENT_ID'' := c, ''CLIENT_SECRET'' := s)\<rparr>) w =
        (\<lparr>status = 200, body = ''No new waitlist entries to process''\<rparr>,
         w\<lparr>requests := Suc (Suc (requests w))\<rparr>)) \<and>
   (process_env env ''GOOGLE_PRIVATE_KEY'' \<noteq> None \<and> remote_error env (requests w) = Some m \<longrightarrow>
      ProcessWaitlistEntries env w =
        (\<lparr>status = 500, body = ''Error processing waitlist: '' @ m\<rparr>,
         w\<lparr>requests := Suc (requests w),
           trace := trace w @ [LogError (''Error processing waitlist: '' @ m)]\<rparr>))"
proof (intro conjI impI allI)
  assume "process_env env ''GOOGLE_PRIVATE_KEY'' = None"
  then show "ProcessWaitlistEntries env w =
        (\<lparr>status = 500,
          body = ''Error processing waitlist: '' @ message (undefined_read ''replace'')\<rparr>,
         w\<lparr>trace := trace w @
              [LogError (''Error processing waitlist: '' @ message (undefined_read ''replace''))]\<rparr>)"
    by (simp add: ProcessWaitlistEntries_def getNewWaitlistEntries_def await_def
          load_rows_no_key catch_def)
next
  show "\<not> sublist ''GOOGLE_PRIVATE_KEY'' (message (undefined_read ''replace''))"
    by (simp add: undefined_read_def sublist_Cons_right)
next
  fix p
  assume h: "process_env env ''GOOGLE_PRIVATE_KEY'' \<noteq> None \<and> remote_error env (requests w) = None \<and>
    remote_error env (Suc (requests w)) = None \<and> eligible_rows (sheet w) \<noteq> []"
    and c: "\<not> truthy (process_env env ''TENANT_ID'') \<and> p = ''tenantId'' \<or>
            truthy (process_env env ''TENANT_ID'') \<and> \<not> truthy (process_env env ''CLIENT_ID'') \<and>
              p = ''clientId'' \<or>
            truthy (process_env env ''TENANT_ID'') \<and> truthy (process_env env ''CLIENT_ID'') \<and>
              \<not> truthy (process_env env ''CLIENT_SECRET'') \<and> p = ''clientSecret''"
  from c have g: "getGraphClient env = Inl (ApiError (credential_error env p))"
    by (auto simp: getGraphClient_def)
  from h have r: "getNewWaitlistEntries env w =
      (Inr (eligible_rows (sheet w)), w\<lparr>requests := Suc (Suc (requests w))\<rparr>)"
    by (intro reader_ok) simp_all
  from h show "ProcessWaitlistEntries env w =
           (\<lparr>status = 500, body = ''Error processing waitlist: '' @ credential_error env p\<rparr>,
            w\<lparr>requests := Suc (Suc (requests w)),
              trace := trace w @
                [LogError (''Error processing waitlist: '' @ credential_error env p)]\<rparr>)"
    by (simp add: ProcessWaitlistEntries_def r g catch_def)
next
  let ?env = "env\<lparr>process_env := (process_env env)
                  (''TENANT_ID'' := t, ''CLIENT_ID'' := c, ''CLIENT_SECRET'' := s)\<rparr>"
  assume h: "process_env env ''GOOGLE_PRIVATE_KEY'' \<noteq> None \<and> remote_error env (requests w) = None \<and>
    remote_error env (Suc (requests w)) = None \<and> eligible_rows (sheet w) = []"
  then have "getNewWaitlistEntries ?env w =
      (Inr (eligible_rows (sheet w)), w\<lparr>requests := Suc (Suc (requests w))\<rparr>)"
    by (intro reader_ok) simp_all
  with h show "ProcessWaitlistEntries ?env w =
        (\<lparr>status = 200, body = ''No new waitlist entries to process''\<rparr>,
         w\<lparr>requests := Suc (Suc (requests w))\<rparr>)"
    by (simp add: ProcessWaitlistEntries_def)
next
  assume "process_env env ''GOOGLE_PRIVATE_KEY'' \<noteq> None \<and> remote_error env (requests w) = Some m"
  then show "ProcessWaitlistEntries env w =
        (\<lparr>status = 500, body = ''Error processing waitlist: '' @ m\<rparr>,
         w\<lparr>requests := Suc (requests w),
           trace := trace w @ [LogError (''Error processing waitlist: '' @ m)]\<rparr>)"
    by (auto simp: ProcessWaitlistEntries_def getNewWaitlistEntries_def load_rows_def
          serviceAccountAuth_def await_def request_def catch_def)
qed

theorem missing_configuration_outcomes_witness:
  "ProcessWaitlistEntries (without ''GOOGLE_PRIVATE_KEY'' healthy_env) (fresh two_new_rows) =
     (\<lparr>status = 500,
       body = ''Error processing waitlist: Cannot read properties of undefined (reading 'replace')''\<rparr>,
      \<lparr>sheet = two_new_rows,
       trace = [LogError ''Error processing waitlist: Cannot read properties of undefined (reading 'replace')''],
       requests = 0\<rparr>) \<and>
   ProcessWaitlistEntries (without ''CLIENT_ID'' healthy_env) (fresh two_new_rows) =
     (\<lparr>status = 500,
       body = ''Error processing waitlist: '' @ credential_error healthy_env ''clientId''\<rparr>,
      \<lparr>sheet = two_new_rows,
       trace = [LogError (''Error processing waitlist: '' @ credential_error healthy_env ''clientId'')],
       requests = 2\<rparr>) \<and>
   ProcessWaitlistEntries
      (healthy_env\<lparr>process_env := (process_env healthy_env)
         (''TENANT_ID'' := None, ''CLIENT_ID'' := Some [], ''CLIENT_SECRET'' := None)\<rparr>)
      (fresh [[''Email'' \<mapsto> ''a@x.com'', ''EmailSent'' \<mapsto> ''true'']]) =
     (\<lparr>status = 200, body = ''No new waitlist entries to process''\<rparr>,
      \<lparr>sheet = [[''Email'' \<mapsto> ''a@x.com'', ''EmailSent'' \<mapsto> ''true'']], trace = [],
       requests = 2\<rparr>) \<and>
   ProcessWaitlistEntries (failing_at 0 ''The caller does not have permission'') (fresh two_new_rows) =
     (\<lparr>status = 500,
       body = ''Error processing waitlist: The caller does not have permission''\<rparr>,
      \<lparr>sheet = two_new_rows,
       trace = [LogError ''Error processing waitlist: The caller does not have permission''],
       requests = 1\<rparr>)"
  using missing_configuration_outcomes
          [of "without ''GOOGLE_PRIVATE_KEY'' healthy_env" "fresh two_new_rows"]
        missing_configuration_outcomes
          [of "without ''CLIENT_ID'' healthy_env" "fresh two_new_rows", THEN conjunct2,
           THEN conjunct2, THEN conjunct1, rule_format, of "''clientId''"]
        missing_configuration_outcomes
          [of healthy_env "fresh [[''Email'' \<mapsto> ''a@x.com'', ''EmailSent'' \<mapsto> ''true'']]"
              None "Some []" None]
        missing_configuration_outcomes
          [of "failing_at 0 ''The caller does not have permission''" "fresh two_new_rows"
              _ _ _ "''The caller does not have permission''"]
  by (simp add: without_def healthy_env_def failing_at_def fresh_def undefined_read_def
        two_new_rows_def eligible_rows_def scan_rows.simps is_new_def get_def truthy_def
        toLowerCase_def lower_char_def)

text \<open>
  Two runs with a required value absent: one ends with status 200, the other with an
  error message that does not name what is missing.
\<close>

theorem missing_configuration_counterexample:
  "ProcessWaitlistEntries
      (without ''TENANT_ID'' (without ''CLIENT_ID'' (without ''CLIENT_SECRET'' healthy_env)))
      (fresh [[''Email'' \<mapsto> ''a@x.com'', ''EmailSent'' \<mapsto> ''true'']]) =
     (\<lparr>status = 200, body = ''No new waitlist entries to process''\<rparr>,
      \<lparr>sheet = [[''Email'' \<mapsto> ''a@x.com'', ''EmailSent'' \<mapsto> ''true'']], trace = [],
       requests = 2\<rparr>) \<and>
   ProcessWaitlistEntries (without ''GOOGLE_PRIVATE_KEY'' healthy_env) (fresh two_new_rows) =
     (\<lparr>status = 500,
       body = ''Error processing waitlist: Cannot read properties of undefined (reading 'replace')''\<rparr>,
      \<lparr>sheet = two_new_rows,
       trace = [LogError ''Error processing waitlist: Cannot read properties of undefined (reading 'replace')''],
       requests = 0\<rparr>) \<and>
   \<not> sublist ''GOOGLE_PRIVATE_KEY''
        ''Error processing waitlist: Cannot read properties of undefined (reading 'replace')''"
  by (simp add: run_simps without_def sublist_Cons_right)

text \<open>
  C7. Whenever the reader has returned a non-empty list of \<open>N\<close> rows, the Graph client
  has been built and every send and mark of the loop has succeeded, the handler answers
  200 with the body "Successfully sent emails to N new waitlist entries", where N is the
  number of eligible rows of the sheet, printed in decimal, and each row has been mailed,
  marked and logged in order. Such runs exist: when the private key, tenant id, client id
  and client secret are configured and every request is answered, the run on any sheet
  with an eligible row is one. On the three rows of the specification's scenario the
  eligible set is the single entry for a@x.com at position 0, the run sends one mail to
  a@x.com, writes "true" into row 0 and answers with \<open>N = 1\<close>; on twelve rows to be
  mailed the body reads "12".
\<close>

theorem all_succeed_reports_count:
  "(getNewWaitlistEntries env w = (Inr us, w1) \<and> us \<noteq> [] \<and> getGraphClient env = Inr gc \<and>
    for_users env gc us w1 = (Inr (), w2) \<longrightarrow>
      (\<exists>d. ProcessWaitlistEntries env w =
             (\<lparr>status = 200,
               body = ''Successfully sent emails to '' @ d @ '' new waitlist entries''\<rparr>, w2) \<and>
           is_decimal_of d (length us) \<and> us = eligible_rows (sheet w) \<and>
           trace w2 = trace w @
             concat (map (\<lambda>u. [SendMail (email u), SaveRow (rowIndex u),
                                Log (''Sent welcome email to: '' @ email u)]) us))) \<and>
   (process_env env ''GOOGLE_PRIVATE_KEY'' \<noteq> None \<and>
    truthy (process_env env ''TENANT_ID'') \<and> truthy (process_env env ''CLIENT_ID'') \<and>
    truthy (process_env env ''CLIENT_SECRET'') \<and> (\<forall>n. remote_error env n = None) \<longrightarrow>
      (eligible_rows (sheet w) \<noteq> [] \<longrightarrow>
               (\<exists>w' d. ProcessWaitlistEntries env w =
                  (\<lparr>status = 200,
                    body = ''Successfully sent emails to '' @ d @ '' new waitlist entries''\<rparr>, w') \<and>
                  is_decimal_of d (length (eligible_rows (sheet w))) \<and>
                  trace w' = trace w @
                    concat (map (\<lambda>u. [SendMail (email u), SaveRow (rowIndex u),
                                       Log (''Sent welcome email to: '' @ email u)])
                              (eligible_rows (sheet w))))) \<and>
            (sheet w = scenario_rows \<longrightarrow>
               eligible_rows (sheet w) = [\<lparr>email = ''a@x.com'', rowIndex = 0\<rparr>] \<and>
               (\<exists>w'. ProcessWaitlistEntries env w =
                  (\<lparr>status = 200, body = ''Successfully sent emails to 1 new waitlist entries''\<rparr>, w') \<and>
                  trace w' = trace w @ [SendMail ''a@x.com'', SaveRow 0,
                                        Log ''Sent welcome email to: a@x.com''] \<and>
                  sheet w' = [[''Email'' \<mapsto> ''a@x.com'', ''EmailSent'' \<mapsto> ''true''],
                              [''Email'' \<mapsto> ''b@x.com'', ''EmailSent'' \<mapsto> ''true''],
                              [''Email'' \<mapsto> '''', ''EmailSent'' \<mapsto> '''']])) \<and>
            (sheet w = twelve_new_rows \<longrightarrow>
               (\<exists>w'. ProcessWaitlistEntries env w =
                  (\<lparr>status = 200, body = ''Successfully sent emails to 12 new waitlist entries''\<rparr>, w'))))"
proof (rule conjI; rule impI)
  assume a: "getNewWaitlistEntries env w = (Inr us, w1) \<and> us \<noteq> [] \<and> getGraphClient env = Inr gc \<and>
    for_users env gc us w1 = (Inr (), w2)"
  then have r: "getNewWaitlistEntries env w = (Inr us, w1)" and f: "for_users env gc us w1 = (Inr (), w2)"
    by simp_all
  from reader_frame[OF r] have u: "us = eligible_rows (sheet w)" "trace w1 = trace w"
    by auto
  from for_users_completed[OF f] u have
    t: "trace w2 = trace w @
             concat (map (\<lambda>u. [SendMail (email u), SaveRow (rowIndex u),
                                Log (''Sent welcome email to: '' @ email u)]) us)"
    by simp
  from a have "ProcessWaitlistEntries env w =
             (\<lparr>status = 200,
               body = ''Successfully sent emails to '' @ decimal (length us) @ '' new waitlist entries''\<rparr>, w2)"
    by (simp add: ProcessWaitlistEntries_def)
  with decimal_is_decimal[of "length us"] u(1) t
  show "\<exists>d. ProcessWaitlistEntries env w =
             (\<lparr>status = 200,
               body = ''Successfully sent emails to '' @ d @ '' new waitlist entries''\<rparr>, w2) \<and>
           is_decimal_of d (length us) \<and> us = eligible_rows (sheet w) \<and>
           trace w2 = trace w @
             concat (map (\<lambda>u. [SendMail (email u), SaveRow (rowIndex u),
                                Log (''Sent welcome email to: '' @ email u)]) us)"
    by blast
next
  assume "process_env env ''GOOGLE_PRIVATE_KEY'' \<noteq> None \<and>
    truthy (process_env env ''TENANT_ID'') \<and> truthy (process_env env ''CLIENT_ID'') \<and>
    truthy (process_env env ''CLIENT_SECRET'') \<and> (\<forall>n. remote_error env n = None)"
  then have "process_env env ''GOOGLE_PRIVATE_KEY'' \<noteq> None"
    "truthy (process_env env ''TENANT_ID'')" "truthy (process_env env ''CLIENT_ID'')"
    "truthy (process_env env ''CLIENT_SECRET'')" "\<forall>n. remote_error env n = None"
    by simp_all
  then show "(eligible_rows (sheet w) \<noteq> [] \<longrightarrow>
               (\<exists>w' d. ProcessWaitlistEntries env w =
                  (\<lparr>status = 200,
                    body = ''Successfully sent emails to '' @ d @ '' new waitlist entries''\<rparr>, w') \<and>
                  is_decimal_of d (length (eligible_rows (sheet w))) \<and>
                  trace w' = trace w @
                    concat (map (\<lambda>u. [SendMail (email u), SaveRow (rowIndex u),
                                       Log (''Sent welcome email to: '' @ email u)])
                              (eligible_rows (sheet w))))) \<and>
            (sheet w = scenario_rows \<longrightarrow>
               eligible_rows (sheet w) = [\<lparr>email = ''a@x.com'', rowIndex = 0\<rparr>] \<and>
               (\<exists>w'. ProcessWaitlistEntries env w =
                  (\<lparr>status = 200, body = ''Successfully sent emails to 1 new waitlist entries''\<rparr>, w') \<and>
                  trace w' = trace w @ [SendMail ''a@x.com'', SaveRow 0,
                                        Log ''Sent welcome email to: a@x.com''] \<and>
                  sheet w' = [[''Email'' \<mapsto> ''a@x.com'', ''EmailSent'' \<mapsto> ''true''],
                              [''Email'' \<mapsto> ''b@x.com'', ''EmailSent'' \<mapsto> ''true''],
                              [''Email'' \<mapsto> '''', ''EmailSent'' \<mapsto> '''']])) \<and>
            (sheet w = twelve_new_rows \<longrightarrow>
               (\<exists>w'. ProcessWaitlistEntries env w =
                  (\<lparr>status = 200, body = ''Successfully sent emails to 12 new waitlist entries''\<rparr>, w')))"
    by (rule run_with_all_requests_answered)
qed

theorem all_succeed_reports_count_witness:
  "ProcessWaitlistEntries healthy_env (fresh scenario_rows) =
     (\<lparr>status = 200, body = ''Successfully sent emails to 1 new waitlist entries''\<rparr>,
      \<lparr>sheet = [[''Email'' \<mapsto> ''a@x.com'', ''EmailSent'' \<mapsto> ''true''],
                [''Email'' \<mapsto> ''b@x.com'', ''EmailSent'' \<mapsto> ''true''],
                [''Email'' \<mapsto> '''', ''EmailSent'' \<mapsto> '''']],
       trace = [SendMail ''a@x.com'', SaveRow 0, Log ''Sent welcome email to: a@x.com''],
       requests = 6\<rparr>) \<and>
   fst (ProcessWaitlistEntries healthy_env (fresh twelve_new_rows)) =
     \<lparr>status = 200, body = ''Successfully sent emails to 12 new waitlist entries''\<rparr> \<and>
   is_decimal_of ''12'' 12 \<and>
   (\<exists>d w2. ProcessWaitlistEntries healthy_env (fresh two_new_rows) =
            (\<lparr>status = 200,
              body = ''Successfully sent emails to '' @ d @ '' new waitlist entries''\<rparr>, w2) \<and>
          is_decimal_of d 2)"
proof -
  have g: "getNewWaitlistEntries healthy_env (fresh two_new_rows) =
      (Inr [\<lparr>email = ''a@x.com'', rowIndex = 0\<rparr>, \<lparr>email = ''b@x.com'', rowIndex = 1\<rparr>],
       \<lparr>sheet = two_new_rows, trace = [], requests = 2\<rparr>)"
    by (simp add: run_simps)
  have gc: "getGraphClient healthy_env =
      Inr \<lparr>tenant_id = Some ''t'', client_id = Some ''c'', client_secret = Some ''s''\<rparr>"
    by (simp add: getGraphClient_def healthy_env_def truthy_def)
  have f: "for_users healthy_env
      \<lparr>tenant_id = Some ''t'', client_id = Some ''c'', client_secret = Some ''s''\<rparr>
      [\<lparr>email = ''a@x.com'', rowIndex = 0\<rparr>, \<lparr>email = ''b@x.com'', rowIndex = 1\<rparr>]
      \<lparr>sheet = two_new_rows, trace = [], requests = 2\<rparr> =
      (Inr (),
       \<lparr>sheet = [[''Email'' \<mapsto> ''a@x.com'', ''EmailSent'' \<mapsto> ''true''],
                 [''Email'' \<mapsto> ''b@x.com'', ''EmailSent'' \<mapsto> ''true'']],
        trace = [SendMail ''a@x.com'', SaveRow 0, Log ''Sent welcome email to: a@x.com'',
                 SendMail ''b@x.com'', SaveRow 1, Log ''Sent welcome email to: b@x.com''],
        requests = 10\<rparr>)"
    by (simp add: run_simps)
  have ne: "[\<lparr>email = ''a@x.com'', rowIndex = 0\<rparr>, \<lparr>email = ''b@x.com'', rowIndex = 1\<rparr>] \<noteq> []"
    by simp
  from all_succeed_reports_count[THEN conjunct1, THEN mp, OF conjI[OF g conjI[OF ne conjI[OF gc f]]]]
  obtain d w2 where
    "ProcessWaitlistEntries healthy_env (fresh two_new_rows) =
            (\<lparr>status = 200,
              body = ''Successfully sent emails to '' @ d @ '' new waitlist entries''\<rparr>, w2)"
    and "is_decimal_of d
           (length [\<lparr>email = ''a@x.com'', rowIndex = 0\<rparr>, \<lparr>email = ''b@x.com'', rowIndex = 1\<rparr>])"
    by blast
  moreover from this(2) have "is_decimal_of d 2" by (simp add: numeral_2_eq_2)
  ultimately have first: "\<exists>d w2. ProcessWaitlistEntries healthy_env (fresh two_new_rows) =
            (\<lparr>status = 200,
              body = ''Successfully sent emails to '' @ d @ '' new waitlist entries''\<rparr>, w2) \<and>
          is_decimal_of d 2"
    by blast
  have k: "process_env healthy_env ''GOOGLE_PRIVATE_KEY'' \<noteq> None"
    and t: "truthy (process_env healthy_env ''TENANT_ID'')"
    and c: "truthy (process_env healthy_env ''CLIENT_ID'')"
    and s: "truthy (process_env healthy_env ''CLIENT_SECRET'')"
    and n: "\<forall>n. remote_error healthy_env n = None"
    by (simp_all add: healthy_env_def truthy_def)
  from k t c s n have hyps: "process_env healthy_env ''GOOGLE_PRIVATE_KEY'' \<noteq> None \<and>
    truthy (process_env healthy_env ''TENANT_ID'') \<and> truthy (process_env healthy_env ''CLIENT_ID'') \<and>
    truthy (process_env healthy_env ''CLIENT_SECRET'') \<and> (\<forall>n. remote_error healthy_env n = None)"
    by blast
  from all_succeed_reports_count[of healthy_env "fresh scenario_rows", THEN conjunct2, THEN mp, OF hyps]
  obtain w' where
    "ProcessWaitlistEntries healthy_env (fresh scenario_rows) =
       (\<lparr>status = 200, body = ''Successfully sent emails to 1 new waitlist entries''\<rparr>, w')"
    by (auto simp: fresh_def)
  moreover have "snd (ProcessWaitlistEntries healthy_env (fresh scenario_rows)) =
      \<lparr>sheet = [[''Email'' \<mapsto> ''a@x.com'', ''EmailSent'' \<mapsto> ''true''],
                [''Email'' \<mapsto> ''b@x.com'', ''EmailSent'' \<mapsto> ''true''],
                [''Email'' \<mapsto> '''', ''EmailSent'' \<mapsto> '''']],
       trace = [SendMail ''a@x.com'', SaveRow 0, Log ''Sent welcome email to: a@x.com''],
       requests = 6\<rparr>"
    by (simp add: run_simps scenario_rows_def)
  moreover from all_succeed_reports_count[of healthy_env "fresh twelve_new_rows", THEN conjunct2, THEN mp, OF hyps]
  have "fst (ProcessWaitlistEntries healthy_env (fresh twelve_new_rows)) =
     \<lparr>status = 200, body = ''Successfully sent emails to 12 new waitlist entries''\<rparr>"
    by (auto simp: fresh_def)
  moreover have "is_decimal_of ''12'' 12"
    by (simp add: is_decimal_of_def read_decimal_def digit_value_def)
  ultimately show ?thesis using first by simp
qed

text \<open>
  C8. For every position within the sheet, when the private key is configured and the
  three requests of the marker are answered, the marker returns normally and the sheet
  it leaves is the sheet at the start with "true" in the "EmailSent" field of the row at
  that position. Every entry of the eligible set carries the position of the row it was
  made from, together with that row's email, and the entries are in the order of the sheet.
\<close>

theorem marker_sets_sent_flag_at_index:
  "(process_env env ''GOOGLE_PRIVATE_KEY'' \<noteq> None \<and> remote_error env (requests w) = None \<and>
    remote_error env (Suc (requests w)) = None \<and> remote_error env (Suc (Suc (requests w))) = None \<and>
    i < length (sheet w) \<longrightarrow>
      (\<exists>w'. markUserAsEmailed env i w = (Inr (), w') \<and>
            sheet w' = (sheet w)[i := set_cell (sheet w ! i) ''EmailSent'' ''true''] \<and>
            get (sheet w' ! i) ''EmailSent'' = Some ''true'' \<and>
            trace w' = trace w @ [SaveRow i])) \<and>
   (\<forall>u\<in>set (eligible_rows rows).
       rowIndex u < length rows \<and> get (rows ! rowIndex u) ''Email'' = Some (email u)) \<and>
   sorted_wrt (<) (map rowIndex (eligible_rows rows))"
proof (intro conjI impI ballI)
  assume a: "process_env env ''GOOGLE_PRIVATE_KEY'' \<noteq> None \<and> remote_error env (requests w) = None \<and>
    remote_error env (Suc (requests w)) = None \<and> remote_error env (Suc (Suc (requests w))) = None \<and>
    i < length (sheet w)"
  then have "markUserAsEmailed env i w =
           (Inr (), w\<lparr>requests := Suc (Suc (Suc (requests w))),
                      sheet := (sheet w)[i := set_cell (sheet w ! i) ''EmailSent'' ''true''],
                      trace := trace w @ [SaveRow i]\<rparr>)"
    by (intro mark_ok) simp_all
  with a show "\<exists>w'. markUserAsEmailed env i w = (Inr (), w') \<and>
            sheet w' = (sheet w)[i := set_cell (sheet w ! i) ''EmailSent'' ''true''] \<and>
            get (sheet w' ! i) ''EmailSent'' = Some ''true'' \<and>
            trace w' = trace w @ [SaveRow i]"
    by (simp add: get_def set_cell_def)
next
  fix u assume "u \<in> set (eligible_rows rows)"
  then show "rowIndex u < length rows" "get (rows ! rowIndex u) ''Email'' = Some (email u)"
    using eligible_rows_entries by blast+
next
  show "sorted_wrt (<) (map rowIndex (eligible_rows rows))"
    by (rule eligible_rows_sorted)
qed

theorem marker_sets_sent_flag_at_index_witness:
  "markUserAsEmailed healthy_env 1 (fresh two_new_rows) =
     (Inr (), \<lparr>sheet = [[''Email'' \<mapsto> ''a@x.com'', ''EmailSent'' \<mapsto> ''''],
                        [''Email'' \<mapsto> ''b@x.com'', ''EmailSent'' \<mapsto> ''true'']],
               trace = [SaveRow 1], requests = 3\<rparr>) \<and>
   eligible_rows two_new_rows =
     [\<lparr>email = ''a@x.com'', rowIndex = 0\<rparr>, \<lparr>email = ''b@x.com'', rowIndex = 1\<rparr>] \<and>
   sorted_wrt (<) (map rowIndex (eligible_rows two_new_rows))"
  using marker_sets_sent_flag_at_index [of healthy_env "fresh two_new_rows" 1 two_new_rows]
  by (simp add: run_simps)

text \<open>
  C9. The marker does not check its index. For a position at or beyond the end of the
  reloaded rows it throws, whatever the environment, and leaves the sheet as it was.
  When the rows were loaded, the error is the engine's TypeError for the call of
  \<^verbatim>\<open>set\<close> on \<^verbatim>\<open>undefined\<close> exactly when the position is out of range; within
  the range that error is never raised.
\<close>

theorem marker_out_of_range_throws:
  "(length (sheet w) \<le> i \<longrightarrow>
      (\<exists>e w'. markUserAsEmailed env i w = (Inl e, w') \<and> sheet w' = sheet w \<and> trace w' = trace w)) \<and>
   (process_env env ''GOOGLE_PRIVATE_KEY'' \<noteq> None \<and> remote_error env (requests w) = None \<and>
    remote_error env (Suc (requests w)) = None \<longrightarrow>
      (fst (markUserAsEmailed env i w) = Inl (undefined_read ''set'')) = (length (sheet w) \<le> i)) \<and>
   (fst (markUserAsEmailed env i w) = Inl (undefined_read ''set'') \<longrightarrow> length (sheet w) \<le> i)"
proof (intro conjI impI)
  obtain r w' where m: "markUserAsEmailed env i w = (r, w')"
    by (cases "markUserAsEmailed env i w")
  note me = mark_effect[OF m]
  {
    assume "length (sheet w) \<le> i"
    with me m show "\<exists>e w'. markUserAsEmailed env i w = (Inl e, w') \<and> sheet w' = sheet w \<and> trace w' = trace w"
      by (cases r) auto
  }
  have g: "length (sheet w) \<le> i" if "r = Inl (undefined_read ''set'')"
  proof (rule ccontr)
    assume "\<not> length (sheet w) \<le> i"
    then have lt: "i < length (sheet w)" by simp
    from m that consider
        (fail) "load_rows env w = (Inl (undefined_read ''set''), w')"
      | (cont) rows w1 where "load_rows env w = (Inr rows, w1)"
          "(if i < length rows then save env i (set_cell (rows ! i) ''EmailSent'' ''true'')
            else throw (undefined_read ''set'')) w1 = (Inl (undefined_read ''set''), w')"
      unfolding markUserAsEmailed_def await_cases by blast
    then show False
    proof cases
      case fail
      then show ?thesis
        by (auto simp: load_rows_def serviceAccountAuth_def throw_def Let_def await_cases
              request_cases undefined_read_def split: option.splits sum.splits)
    next
      case cont
      with load_rows_frame[OF cont(1)] lt show ?thesis
        by (auto simp: save_def await_cases request_cases undefined_read_def split: option.splits)
    qed
  qed
  with m show "length (sheet w) \<le> i" if "fst (markUserAsEmailed env i w) = Inl (undefined_read ''set'')"
    using that by simp
  assume a: "process_env env ''GOOGLE_PRIVATE_KEY'' \<noteq> None \<and> remote_error env (requests w) = None \<and>
    remote_error env (Suc (requests w)) = None"
  show "(fst (markUserAsEmailed env i w) = Inl (undefined_read ''set'')) = (length (sheet w) \<le> i)"
  proof
    assume "fst (markUserAsEmailed env i w) = Inl (undefined_read ''set'')"
    with m g show "length (sheet w) \<le> i" by simp
  next
    assume "length (sheet w) \<le> i"
    with a show "fst (markUserAsEmailed env i w) = Inl (undefined_read ''set'')"
      by (simp add: mark_out_of_range)
  qed
qed

theorem marker_out_of_range_throws_witness:
  "markUserAsEmailed healthy_env 2 (fresh two_new_rows) =
     (Inl (TypeError ''Cannot read properties of undefined (reading 'set')''),
      \<lparr>sheet = two_new_rows, trace = [], requests = 2\<rparr>) \<and>
   fst (markUserAsEmailed healthy_env 2 (fresh two_new_rows)) = Inl (undefined_read ''set'')"
  using marker_out_of_range_throws [of "fresh two_new_rows" 2 healthy_env]
  by (simp add: run_simps)

text \<open>
  C10. Whatever a call of the marker returns, the sheet has as many rows after it as
  before, every row other than the one at the given position is unchanged, and in every
  row, the marked one included, every field other than "EmailSent", "Email" among them,
  is unchanged.
\<close>

theorem marker_changes_one_cell:
  assumes "markUserAsEmailed env i w = (r, w')"
  shows "length (sheet w') = length (sheet w) \<and>
         (\<forall>j<length (sheet w). j \<noteq> i \<longrightarrow> sheet w' ! j = sheet w ! j) \<and>
         (\<forall>j<length (sheet w). \<forall>k. k \<noteq> ''EmailSent'' \<longrightarrow> get (sheet w' ! j) k = get (sheet w ! j) k) \<and>
         (\<forall>j<length (sheet w). get (sheet w' ! j) ''Email'' = get (sheet w ! j) ''Email'')"
proof (cases r)
  case (Inl e)
  with mark_effect[OF assms] show ?thesis by simp
next
  case (Inr x)
  with mark_effect[OF assms] have "i < length (sheet w)"
    "sheet w' = (sheet w)[i := set_cell (sheet w ! i) ''EmailSent'' ''true'']"
    by simp_all
  then show ?thesis
    by (auto simp: nth_list_update get_def set_cell_def)
qed

theorem marker_changes_one_cell_witness:
  "markUserAsEmailed healthy_env 0 (fresh two_new_rows) =
     (Inr (), \<lparr>sheet = [[''Email'' \<mapsto> ''a@x.com'', ''EmailSent'' \<mapsto> ''true''],
                        [''Email'' \<mapsto> ''b@x.com'']],
               trace = [SaveRow 0], requests = 3\<rparr>) \<and>
   length (sheet (snd (markUserAsEmailed healthy_env 0 (fresh two_new_rows)))) =
     length (sheet (fresh two_new_rows)) \<and>
   get (sheet (snd (markUserAsEmailed healthy_env 0 (fresh two_new_rows))) ! 0) ''Email'' =
     Some ''a@x.com''"
proof -
  have h: "markUserAsEmailed healthy_env 0 (fresh two_new_rows) =
     (Inr (), \<lparr>sheet = [[''Email'' \<mapsto> ''a@x.com'', ''EmailSent'' \<mapsto> ''true''],
                        [''Email'' \<mapsto> ''b@x.com'']],
               trace = [SaveRow 0], requests = 3\<rparr>)"
    by (simp add: run_simps)
  from marker_changes_one_cell[OF h] show ?thesis
    using h by (simp add: fresh_def two_new_rows_def get_def)
qed

end
